theory Spec2Isabelle
  imports Complex_Main
begin

section \<open>The host: time values and the calendar of ECMAScript\<close>

text \<open>
  \<^verbatim>\<open>script.js\<close> builds two \<^verbatim>\<open>Date\<close> objects and reads them with
  \<^verbatim>\<open>getFullYear\<close> and \<^verbatim>\<open>getMonth\<close>. A \<^verbatim>\<open>Date\<close> holds a time value: the
  milliseconds since 1970-01-01T00:00:00Z, an integer. The abstract operations below are
  those of the ECMAScript specification (section "Time Values and Time Range"), with its
  names. \<open>div\<close> on \<open>int\<close> rounds towards minus infinity, as the specification's floor
  does.
\<close>

definition msPerDay :: int where
  "msPerDay = 86400000"

definition Day :: "int \<Rightarrow> int" where
  "Day t = t div msPerDay"

definition DaysInYear :: "int \<Rightarrow> int" where
  "DaysInYear y =
     (if y mod 4 \<noteq> 0 then 365
      else if y mod 100 \<noteq> 0 then 366
      else if y mod 400 \<noteq> 0 then 365
      else 366)"

definition DayFromYear :: "int \<Rightarrow> int" where
  "DayFromYear y =
     365 * (y - 1970) + (y - 1969) div 4 - (y - 1901) div 100 + (y - 1601) div 400"

text \<open>
  The specification defines \<open>YearFromTime t\<close> as the largest year \<open>y\<close> whose first day is
  not after \<open>t\<close>. The search starts from the estimate \<open>1970 + d div 365\<close>, walks down
  while the year starts after day \<open>d\<close> and then up while the next year starts on or before
  it.
\<close>

function yearDown :: "int \<Rightarrow> int \<Rightarrow> int" where
  "yearDown y d = (if d < DayFromYear y then yearDown (y - 1) d else y)"
  by pat_completeness auto
termination
proof (relation "measure (\<lambda>(y, d). nat (DayFromYear y - d))")
  show "wf (measure (\<lambda>(y, d). nat (DayFromYear y - d)))"
    by simp
next
  fix y d :: int
  assume lt: "d < DayFromYear y"
  have "DayFromYear (y - 1) < DayFromYear y"
    unfolding DayFromYear_def by (simp add: algebra_simps)
  with lt show "((y - 1, d), (y, d)) \<in> measure (\<lambda>(y, d). nat (DayFromYear y - d))"
    by simp
qed

function yearUp :: "int \<Rightarrow> int \<Rightarrow> int" where
  "yearUp y d = (if DayFromYear (y + 1) \<le> d then yearUp (y + 1) d else y)"
  by pat_completeness auto
termination
proof (relation "measure (\<lambda>(y, d). nat (d - DayFromYear y))")
  show "wf (measure (\<lambda>(y, d). nat (d - DayFromYear y)))"
    by simp
next
  fix y d :: int
  assume le: "DayFromYear (y + 1) \<le> d"
  have "DayFromYear y < DayFromYear (y + 1)"
    unfolding DayFromYear_def by (simp add: algebra_simps)
  with le show "((y + 1, d), (y, d)) \<in> measure (\<lambda>(y, d). nat (d - DayFromYear y))"
    by simp
qed

definition YearFromDay :: "int \<Rightarrow> int" where
  "YearFromDay d = yearUp (yearDown (1970 + d div 365) d) d"

definition YearFromTime :: "int \<Rightarrow> int" where
  "YearFromTime t = YearFromDay (Day t)"

definition InLeapYear :: "int \<Rightarrow> int" where
  "InLeapYear t = (if DaysInYear (YearFromTime t) = 366 then 1 else 0)"

definition DayWithinYear :: "int \<Rightarrow> int" where
  "DayWithinYear t = Day t - DayFromYear (YearFromTime t)"

text \<open>
  Months are numbered from 0 (January) to 11 (December), as \<^verbatim>\<open>getMonth\<close> does.
  \<open>MonthFromDay d l\<close> is the specification's table: the month of day \<open>d\<close> within its
  year, \<open>l\<close> being 1 in a leap year and 0 otherwise.
\<close>

definition MonthFromDay :: "int \<Rightarrow> int \<Rightarrow> int" where
  "MonthFromDay d l =
     (if d < 31 then 0
      else if d < 59 + l then 1
      else if d < 90 + l then 2
      else if d < 120 + l then 3
      else if d < 151 + l then 4
      else if d < 181 + l then 5
      else if d < 212 + l then 6
      else if d < 243 + l then 7
      else if d < 273 + l then 8
      else if d < 304 + l then 9
      else if d < 334 + l then 10
      else 11)"

definition MonthFromTime :: "int \<Rightarrow> int" where
  "MonthFromTime t = MonthFromDay (DayWithinYear t) (InLeapYear t)"

text \<open>
  \<open>DayFromMonth m l\<close> is the number of days of a year before month \<open>m\<close> (0 to 11) starts,
  \<open>l\<close> being 1 in a leap year: the day within the year at which \<open>MonthFromTime\<close> switches
  to \<open>m\<close>. \<open>MakeDay\<close> and \<open>MakeDate\<close> build a time value from calendar fields.
\<close>

definition DayFromMonth :: "int \<Rightarrow> int \<Rightarrow> int" where
  "DayFromMonth m l =
     (if m = 0 then 0
      else if m = 1 then 31
      else if m = 2 then 59 + l
      else if m = 3 then 90 + l
      else if m = 4 then 120 + l
      else if m = 5 then 151 + l
      else if m = 6 then 181 + l
      else if m = 7 then 212 + l
      else if m = 8 then 243 + l
      else if m = 9 then 273 + l
      else if m = 10 then 304 + l
      else 334 + l)"

definition MakeDay :: "int \<Rightarrow> int \<Rightarrow> int \<Rightarrow> int" where
  "MakeDay year month date =
     (let ym = year + month div 12; mn = month mod 12 in
      DayFromYear ym + DayFromMonth mn (if DaysInYear ym = 366 then 1 else 0) + date - 1)"

definition MakeDate :: "int \<Rightarrow> int \<Rightarrow> int" where
  "MakeDate day time = day * msPerDay + time"

subsection \<open>Numbers and promises\<close>

text \<open>
  A JavaScript number is a double: a finite value, which is a rational number, or one of
  \<^verbatim>\<open>Infinity\<close>, \<^verbatim>\<open>-Infinity\<close> and \<^verbatim>\<open>NaN\<close>. \<open>Finite r\<close> carries the exact value.
  A promise is modelled by what \<^verbatim>\<open>await\<close> sees of it: it is fulfilled with a value,
  rejected with an error (its message), or it never settles.
\<close>

datatype jsnumber = Finite rat | PlusInfinity | MinusInfinity | NaN

datatype 'a promise = Fulfilled 'a | Rejected string | Pending

subsection \<open>The response of the prediction service\<close>

text \<open>
  \<^verbatim>\<open>response.json()\<close> gives any JSON value. The records below hold what the script
  reads of it, after the coercions of the language: a flag is the truthiness of the
  field, a text is the field as the template literal prints it. Where a member access
  of the script throws on a value of the wrong type, the field has a second
  alternative:
  \<^item> \<open>nivel = None\<close>: the field is not a number (\<^verbatim>\<open>mes.nivel.toFixed\<close> throws);
  \<^item> an entry \<open>None\<close> of \<open>prediccion_mensual\<close>: the entry is \<^verbatim>\<open>null\<close>;
  \<^item> \<open>prediccion_mensual = None\<close>: the field is not an array (\<^verbatim>\<open>forEach\<close> throws);
  \<^item> \<open>riesgo_global = NotString s\<close>: the field is not a string (\<^verbatim>\<open>toLowerCase\<close>
    throws), and \<open>s\<close> is what \<^verbatim>\<open>textContent\<close> shows when it is assigned the field;
  \<^item> a body \<open>None\<close>: the JSON value \<^verbatim>\<open>null\<close>.
  For a response that is not ok, \<open>Data d\<close> is a body that is not \<^verbatim>\<open>null\<close>: \<open>d\<close> is the text
  of its \<^verbatim>\<open>detail\<close> field when the field is truthy, and \<open>None\<close> when it is falsy or
  absent.
\<close>

record mes =
  fecha :: string
  nivel :: "jsnumber option"
  situacion :: string
  es_sequia :: bool
  es_nivel_bajo :: bool

datatype string_field = IsString string | NotString string

record resultado =
  riesgo_global :: string_field
  sequia_probable :: bool
  prediccion_mensual :: "mes option list option"

datatype error_data = NullData | Data "string option"

datatype response =
  ResponseOk "resultado option promise"
  | ResponseNotOk "error_data promise"

record payload =
  horizonte_meses :: jsnumber
  escenario :: string
  nivel_actual_usuario :: "jsnumber option"

record request =
  url :: string
  http_method :: string
  headers :: "(string \<times> string) list"
  body :: payload

subsection \<open>The browser\<close>

text \<open>
  What the browser, its settings and the network decide. \<open>LocalTZA t\<close> is the offset of
  local time from UTC, in milliseconds, at the time value \<open>t\<close> (the time zone of the
  machine, with its daylight saving rules). \<open>parseOther\<close> is what \<^verbatim>\<open>Date.parse\<close> makes
  of a string that is not a date of the ECMAScript format: the specification leaves it
  to the implementation (\<open>None\<close> is \<^verbatim>\<open>NaN\<close>). \<open>toLowerCase\<close>, \<open>parseInt10\<close> (radix 10)
  and \<open>parseFloat\<close> are the built-ins of these names. For a finite number of
  magnitude \<open>10\<^sup>2\<^sup>1\<close> or more, \<open>shortestDecimal\<close> gives the integers \<open>s\<close> and \<open>n\<close>
  of \<^verbatim>\<open>Number::toString\<close>: the number is the double nearest to \<open>s\<close> times a power of
  ten, \<open>s\<close> has as few digits as can be, and \<open>n\<close> is the number of digits of the
  integer part (which digits these are depends on how doubles round).
  \<open>typeErrorMessage e\<close> is the message of the exception that evaluating the expression
  \<open>e\<close> of the script throws. \<open>fetch r\<close> is the promise \<^verbatim>\<open>fetch\<close> returns for the
  request \<open>r\<close>.
\<close>

record host =
  LocalTZA :: "int \<Rightarrow> int"
  parseOther :: "string \<Rightarrow> int option"
  toLowerCase :: "string \<Rightarrow> string"
  parseInt10 :: "string \<Rightarrow> jsnumber"
  parseFloat :: "string \<Rightarrow> jsnumber"
  shortestDecimal :: "rat \<Rightarrow> nat \<times> nat"
  typeErrorMessage :: "string \<Rightarrow> string"
  fetch :: "request \<Rightarrow> response promise"

definition LocalTime :: "host \<Rightarrow> int \<Rightarrow> int" where
  "LocalTime h t = t + LocalTZA h t"

definition getFullYear :: "host \<Rightarrow> int \<Rightarrow> int" where
  "getFullYear h t = YearFromTime (LocalTime h t)"

definition getMonth :: "host \<Rightarrow> int \<Rightarrow> int" where
  "getMonth h t = MonthFromTime (LocalTime h t)"

subsection \<open>Parsing a date string\<close>

text \<open>
  Strings are byte strings; a character outside ASCII is its UTF-8 bytes. The fields of
  a form hold ASCII text when they hold a date or a number, and on ASCII text
  \<open>length\<close> agrees with \<^verbatim>\<open>.length\<close>. \<open>includes_js s sub\<close> is \<^verbatim>\<open>s.includes(sub)\<close>.

  \<open>isoFields s\<close> reads a string of the form \<^verbatim>\<open>YYYY-MM-DDT00:00:00Z\<close> whose month and
  day exist in the calendar; every engine parses such a string as that date at midnight
  UTC. Any other string goes to \<open>parseOther\<close>.
\<close>

fun includes_js :: "string \<Rightarrow> string \<Rightarrow> bool" where
  "includes_js [] sub = (sub = [])"
| "includes_js (c # cs) sub = (take (length sub) (c # cs) = sub \<or> includes_js cs sub)"

definition isDigit :: "char \<Rightarrow> bool" where
  "isDigit c = (48 \<le> (of_char c :: nat) \<and> (of_char c :: nat) \<le> 57)"

definition digitsValue :: "string \<Rightarrow> int" where
  "digitsValue s = foldl (\<lambda>a c. 10 * a + (int (of_char c) - 48)) 0 s"

definition DaysInMonth :: "int \<Rightarrow> int \<Rightarrow> int" where
  "DaysInMonth y m =
     (if m = 2 then (if DaysInYear y = 366 then 29 else 28)
      else if m = 4 \<or> m = 6 \<or> m = 9 \<or> m = 11 then 30
      else 31)"

definition isoFields :: "string \<Rightarrow> (int \<times> int \<times> int) option" where
  "isoFields s =
     (if length s = 20 \<and> list_all isDigit (take 4 s) \<and> s ! 4 = CHR ''-''
         \<and> list_all isDigit (take 2 (drop 5 s)) \<and> s ! 7 = CHR ''-''
         \<and> list_all isDigit (take 2 (drop 8 s)) \<and> drop 10 s = ''T00:00:00Z''
      then
        (let y = digitsValue (take 4 s);
             m = digitsValue (take 2 (drop 5 s));
             d = digitsValue (take 2 (drop 8 s))
         in if 1 \<le> m \<and> m \<le> 12 \<and> 1 \<le> d \<and> d \<le> DaysInMonth y m
            then Some (y, m, d) else None)
      else None)"

definition utcMidnight :: "int \<times> int \<times> int \<Rightarrow> int" where
  "utcMidnight f = (case f of (y, m, d) \<Rightarrow> MakeDate (MakeDay y (m - 1) d) 0)"

text \<open>\<^verbatim>\<open>new Date(s).getTime()\<close>: the time value, or \<open>None\<close> for \<^verbatim>\<open>NaN\<close>.\<close>

definition newDate :: "host \<Rightarrow> string \<Rightarrow> int option" where
  "newDate h s =
     (case isoFields s of
        Some f \<Rightarrow> Some (utcMidnight f)
      | None \<Rightarrow> parseOther h s)"

section \<open>script.js\<close>

text \<open>
  Every \<^verbatim>\<open>throw new Error(...)\<close> of the file is a value \<open>Error k m\<close>: \<open>m\<close> is the message,
  the only thing the handler reads, and \<open>k\<close> names the place that threw. An exception of
  the platform (a \<^verbatim>\<open>TypeError\<close>, a \<^verbatim>\<open>DOMException\<close>, a rejected promise) is an
  \<open>Error\<close> too, with the message the platform gave it.
\<close>

datatype error_kind =
  InvalidDate | NonFutureTarget | MissingHorizon | MissingScenario
  | RemoteRejection | TransportFailure | PlatformException

datatype js_error = Error (kind: error_kind) (message: string)

definition LAST_DATA_DATE :: string where
  "LAST_DATA_DATE = ''2021-03-01''"

definition BACKEND_URL :: string where
  "BACKEND_URL = ''http://127.0.0.1:8000''"

definition msgFechasNoValidas :: string where
  "msgFechasNoValidas = ''Las fechas no son v'' @ [CHR 0xC3, CHR 0xA1] @ ''lidas.''"

definition msgNoPosterior :: "string \<Rightarrow> string" where
  "msgNoPosterior fechaObjetivoISO =
     ''La fecha objetivo ('' @ fechaObjetivoISO @ '') debe ser posterior a la ''
       @ [CHR 0xC3, CHR 0xBA] @ ''ltima fecha disponible (marzo 2021).''"

text \<open>
  \<open>fechaObjetivoStr\<close> is the local constant of this name in \<^verbatim>\<open>calcularMesesHastaFecha\<close>,
  as a function of the argument.
\<close>

definition fechaObjetivoStr :: "string \<Rightarrow> string" where
  "fechaObjetivoStr fechaObjetivoISO =
     (if includes_js fechaObjetivoISO ''-'' \<and> length fechaObjetivoISO = 7
      then fechaObjetivoISO @ ''-01''
      else fechaObjetivoISO)"

definition calcularMesesHastaFecha :: "host \<Rightarrow> string \<Rightarrow> string \<Rightarrow> js_error + int" where
  "calcularMesesHastaFecha h fechaObjetivoISO ultimaFechaISO =
     (let fechaObjetivo = newDate h (fechaObjetivoStr fechaObjetivoISO @ ''T00:00:00Z'');
          ultimaFecha = newDate h (ultimaFechaISO @ ''T00:00:00Z'')
      in case fechaObjetivo of
           None \<Rightarrow> Inl (Error InvalidDate msgFechasNoValidas)
         | Some t \<Rightarrow>
             (case ultimaFecha of
                None \<Rightarrow> Inl (Error InvalidDate msgFechasNoValidas)
              | Some u \<Rightarrow>
                  if t \<le> u then Inl (Error NonFutureTarget (msgNoPosterior fechaObjetivoISO))
                  else
                    (let anios = getFullYear h t - getFullYear h u;
                         meses = getMonth h t - getMonth h u;
                         mesesTotales = anios * 12 + meses
                     in Inr mesesTotales)))"

subsection \<open>The page\<close>

text \<open>
  The elements the script holds, with the properties it writes. An element is shown
  when its class list has the class \<^verbatim>\<open>visible\<close>: the flags \<open>errorMessage_visible\<close> and
  \<open>resultsSection_visible\<close>. A row of the table is what the script assigns to the
  \<^verbatim>\<open>innerHTML\<close> of the \<^verbatim>\<open>tr\<close> element it appends: a text of HTML, which the browser
  parses into the cells of the row. A cell has the text it shows and the class of its
  \<^verbatim>\<open>td\<close> tag, when the tag has one.
\<close>

record celda =
  clase :: "string option"
  contenido :: string

record dom =
  calcularBtn_disabled :: bool
  calcularBtn_textContent :: string
  errorMessage_visible :: bool
  errorMessage_textContent :: string
  resultsSection_visible :: bool
  riesgoGlobal_textContent :: string
  riesgoBox_classList :: "string list"
  sequiaInfo_textContent :: string
  prediccionTbody_rows :: "string list"

text \<open>The values of the form's fields when it is submitted.\<close>

record campos =
  horizonte_value :: string
  escenario_value :: string
  nivelUsuario_value :: string
  fechaObjetivo_value :: string

subsection \<open>Built-ins of strings and numbers\<close>

text \<open>
  \<^verbatim>\<open>trim\<close> removes white space and line terminators at both ends; on ASCII text these
  are the six characters of \<open>isWhiteSpace\<close>. \<open>decimalDigits n\<close> is the decimal text of
  \<open>n\<close>.
\<close>

definition isWhiteSpace :: "char \<Rightarrow> bool" where
  "isWhiteSpace c = ((of_char c :: nat) \<in> {9, 10, 11, 12, 13, 32})"

definition trim :: "string \<Rightarrow> string" where
  "trim s = rev (dropWhile isWhiteSpace (rev (dropWhile isWhiteSpace s)))"

fun decimalDigits :: "nat \<Rightarrow> string" where
  "decimalDigits n =
     (if n < 10 then [char_of (48 + n)]
      else decimalDigits (n div 10) @ [char_of (48 + n mod 10)])"

text \<open>
  \<^verbatim>\<open>x.toFixed(2)\<close>, after the ECMAScript specification: a value that is not finite
  prints as its name; a magnitude of \<open>10\<^sup>2\<^sup>1\<close> or more prints as \<^verbatim>\<open>toString\<close> does;
  otherwise \<open>n\<close> is the integer nearest to \<open>100 * x\<close> (the larger one of two), printed
  with at least three digits and a point before the last two.

  \<^verbatim>\<open>toString\<close> of a number of \<open>10\<^sup>2\<^sup>1\<close> or more is in exponential notation: with the
  digits \<open>s\<close> and the exponent \<open>n\<close> of \<open>shortestDecimal\<close>, the first digit, a point and
  the other digits when there are any, the letter \<^verbatim>\<open>e\<close>, a plus sign and \<open>n - 1\<close>.
\<close>

definition fixedDigits2 :: "rat \<Rightarrow> string" where
  "fixedDigits2 x =
     (let n = nat \<lfloor>x * 100 + 1 / 2\<rfloor>;
          m = decimalDigits n;
          m = (if length m \<le> 2 then replicate (3 - length m) CHR ''0'' @ m else m);
          k = length m
      in take (k - 2) m @ ''.'' @ drop (k - 2) m)"

definition exponentialText :: "nat \<times> nat \<Rightarrow> string" where
  "exponentialText sn =
     (case sn of (s, n) \<Rightarrow>
        (let m = decimalDigits s in
         take 1 m @ (if length m = 1 then [] else ''.'' @ drop 1 m)
         @ ''e+'' @ decimalDigits (n - 1)))"

definition toFixed2 :: "host \<Rightarrow> jsnumber \<Rightarrow> string" where
  "toFixed2 h x =
     (case x of
        NaN \<Rightarrow> ''NaN''
      | PlusInfinity \<Rightarrow> ''Infinity''
      | MinusInfinity \<Rightarrow> ''-Infinity''
      | Finite r \<Rightarrow>
          (if r < 0 then ''-'' else [])
          @ (if 10 ^ 21 \<le> \<bar>r\<bar> then exponentialText (shortestDecimal h \<bar>r\<bar>)
             else fixedDigits2 \<bar>r\<bar>))"

subsection \<open>mostrarError\<close>

definition crossMark :: string where
  "crossMark = [CHR 0xE2, CHR 0x9D, CHR 0x8C]"

definition mostrarError :: "string \<Rightarrow> dom \<Rightarrow> dom" where
  "mostrarError mensaje d =
     d\<lparr>errorMessage_textContent := crossMark @ '' '' @ mensaje,
       errorMessage_visible := True,
       resultsSection_visible := False,
       prediccionTbody_rows := []\<rparr>"

subsection \<open>mostrarResultados\<close>

text \<open>
  A statement of the script ends normally, throws, or (at an \<^verbatim>\<open>await\<close>) never resumes.
  What it wrote to the page before it threw stays written: a function returns the
  completion and the page.
\<close>

datatype completion = Done | Threw js_error | Suspended

definition textoSi :: string where
  "textoSi = ''S'' @ [CHR 0xC3, CHR 0xAD]"

definition textoNo :: string where
  "textoNo = ''No''"

text \<open>
  The body of the \<^verbatim>\<open>forEach\<close> callback: the text it assigns to \<^verbatim>\<open>fila.innerHTML\<close>,
  or the exception of a member access on \<^verbatim>\<open>null\<close> or of \<^verbatim>\<open>toFixed\<close> on a value that
  is not a number. The text is the template literal of the script, with its line breaks
  and its indentation; the fields are written into it as they are, not escaped.
\<close>

definition sangria :: "nat \<Rightarrow> string" where
  "sangria n = CHR 0x0A # replicate n CHR '' ''"

definition td :: "string \<Rightarrow> string" where
  "td s = ''<td>'' @ s @ ''</td>''"

definition tdClass :: "string \<Rightarrow> string \<Rightarrow> string" where
  "tdClass c s = ''<td class='' @ [CHR 0x22] @ c @ [CHR 0x22] @ ''>'' @ s @ ''</td>''"

definition filaDeMes :: "host \<Rightarrow> mes option \<Rightarrow> js_error + string" where
  "filaDeMes h entry =
     (case entry of
        None \<Rightarrow> Inl (Error PlatformException (typeErrorMessage h ''mes.es_sequia''))
      | Some mes \<Rightarrow>
          (let situacionClase =
                 (if es_sequia mes then ''situacion-sequia''
                  else if es_nivel_bajo mes then ''situacion-bajo''
                  else ''situacion-normal'');
               sequiaClase = (if es_sequia mes then ''boolean-true'' else ''boolean-false'');
               bajoclase = (if es_nivel_bajo mes then ''boolean-true'' else ''boolean-false'')
           in case nivel mes of
                None \<Rightarrow> Inl (Error PlatformException (typeErrorMessage h ''mes.nivel.toFixed''))
              | Some x \<Rightarrow>
                  Inr (sangria 12 @ td (fecha mes)
                       @ sangria 12 @ td (toFixed2 h x)
                       @ sangria 12 @ tdClass situacionClase (situacion mes)
                       @ sangria 12 @ tdClass sequiaClase (if es_sequia mes then textoSi else textoNo)
                       @ sangria 12 @ tdClass bajoclase (if es_nivel_bajo mes then textoSi else textoNo)
                       @ sangria 8)))"

text \<open>\<^verbatim>\<open>forEach\<close>: the rows are appended one by one, until an entry throws.\<close>

fun forEachMes :: "host \<Rightarrow> mes option list \<Rightarrow> dom \<Rightarrow> completion \<times> dom" where
  "forEachMes h [] d = (Done, d)"
| "forEachMes h (entry # rest) d =
     (case filaDeMes h entry of
        Inl e \<Rightarrow> (Threw e, d)
      | Inr fila \<Rightarrow> forEachMes h rest (d\<lparr>prediccionTbody_rows := prediccionTbody_rows d @ [fila]\<rparr>))"

text \<open>
  \<^verbatim>\<open>classList.add(token)\<close> throws a \<^verbatim>\<open>DOMException\<close> when the token is empty or has
  ASCII whitespace in it, and adds the token unless the list has it.
\<close>

definition isAsciiWhitespace :: "char \<Rightarrow> bool" where
  "isAsciiWhitespace c = ((of_char c :: nat) \<in> {9, 10, 12, 13, 32})"

definition warningSign :: string where
  "warningSign = [CHR 0xE2, CHR 0x9A, CHR 0xA0, CHR 0xEF, CHR 0xB8, CHR 0x8F]"

definition checkMark :: string where
  "checkMark = [CHR 0xE2, CHR 0x9C, CHR 0x93]"

definition sequiaMensaje :: "bool \<Rightarrow> string" where
  "sequiaMensaje probable =
     (if probable
      then warningSign @ '' Sequ'' @ [CHR 0xC3, CHR 0xAD] @ ''a probable en el per''
             @ [CHR 0xC3, CHR 0xAD] @ ''odo''
      else checkMark @ '' Sin sequ'' @ [CHR 0xC3, CHR 0xAD] @ ''a probable en el per''
             @ [CHR 0xC3, CHR 0xAD] @ ''odo'')"

definition mostrarResultados :: "host \<Rightarrow> resultado option \<Rightarrow> dom \<Rightarrow> completion \<times> dom" where
  "mostrarResultados h json d =
     (let d = d\<lparr>resultsSection_visible := True\<rparr> in
      case json of
        None \<Rightarrow> (Threw (Error PlatformException (typeErrorMessage h ''resultado.riesgo_global'')), d)
      | Some resultado \<Rightarrow>
          (let d = d\<lparr>riesgoGlobal_textContent :=
                        (case riesgo_global resultado of IsString s \<Rightarrow> s | NotString s \<Rightarrow> s)\<rparr>;
               d = d\<lparr>riesgoBox_classList := [''riesgo-box'']\<rparr>
           in case riesgo_global resultado of
                NotString s \<Rightarrow>
                  (Threw (Error PlatformException
                     (typeErrorMessage h ''resultado.riesgo_global.toLowerCase'')), d)
              | IsString s \<Rightarrow>
                  (let riesgoLower = toLowerCase h s in
                   if riesgoLower = [] \<or> list_ex isAsciiWhitespace riesgoLower
                   then (Threw (Error PlatformException
                           (typeErrorMessage h ''riesgoBox.classList.add'')), d)
                   else
                     (let d = d\<lparr>riesgoBox_classList :=
                                   (if riesgoLower \<in> set (riesgoBox_classList d)
                                    then riesgoBox_classList d
                                    else riesgoBox_classList d @ [riesgoLower])\<rparr>;
                          d = d\<lparr>sequiaInfo_textContent := sequiaMensaje (sequia_probable resultado)\<rparr>;
                          d = d\<lparr>prediccionTbody_rows := []\<rparr>
                      in case prediccion_mensual resultado of
                           None \<Rightarrow>
                             (Threw (Error PlatformException
                                (typeErrorMessage h ''resultado.prediccion_mensual.forEach'')), d)
                         | Some meses \<Rightarrow> forEachMes h meses d))))"

subsection \<open>The cells of a row\<close>

text \<open>
  What the HTML parser makes of the text assigned to the \<^verbatim>\<open>innerHTML\<close> of a \<^verbatim>\<open>tr\<close>
  element, for the texts made of: white space between the cells, the start tags
  \<^verbatim>\<open><td>\<close> and \<^verbatim>\<open><td class="...">\<close>, the end tag \<^verbatim>\<open></td>\<close>, and in a cell a text
  with none of the characters the parser does not keep as they are (\<open>plainText\<close>: the
  less-than sign, which opens a tag, the ampersand, which opens a character reference,
  the null character, which is dropped, and the carriage return, which becomes a line
  feed). On such a text the cells are the \<^verbatim>\<open>td\<close> elements in their order, each with
  the text between its tags. On any other text \<open>celdas\<close> is \<open>None\<close>: the model does not
  say what the parser makes of it.
\<close>

datatype token = Tag string | Chars string | Unclosed

function tokens :: "string \<Rightarrow> token list" where
  "tokens [] = []"
| "tokens (c # cs) =
     (if c = CHR ''<'' then
        (if CHR ''>'' \<in> set cs
         then Tag (takeWhile (\<lambda>x. x \<noteq> CHR ''>'') cs)
              # tokens (drop 1 (dropWhile (\<lambda>x. x \<noteq> CHR ''>'') cs))
         else [Unclosed])
      else Chars (c # takeWhile (\<lambda>x. x \<noteq> CHR ''<'') cs)
           # tokens (dropWhile (\<lambda>x. x \<noteq> CHR ''<'') cs))"
  by pat_completeness auto
termination
proof (relation "measure length")
  show "wf (measure length)"
    by simp
next
  fix c :: char and cs :: string
  have "length (dropWhile (\<lambda>x. x \<noteq> CHR ''>'') cs) \<le> length cs"
    by (rule length_dropWhile_le)
  then show "(drop 1 (dropWhile (\<lambda>x. x \<noteq> CHR ''>'') cs), c # cs) \<in> measure length"
    by simp
next
  fix c :: char and cs :: string
  have "length (dropWhile (\<lambda>x. x \<noteq> CHR ''<'') cs) \<le> length cs"
    by (rule length_dropWhile_le)
  then show "(dropWhile (\<lambda>x. x \<noteq> CHR ''<'') cs, c # cs) \<in> measure length"
    by simp
qed

definition plainText :: "string \<Rightarrow> bool" where
  "plainText s = list_all (\<lambda>c. c \<notin> {CHR ''<'', CHR ''&'', CHR 0x00, CHR 0x0D}) s"

definition openTag :: "string \<Rightarrow> string option option" where
  "openTag t =
     (if t = ''td'' then Some None
      else if 11 \<le> length t \<and> take 10 t = ''td class='' @ [CHR 0x22] \<and> last t = CHR 0x22
              \<and> list_all (\<lambda>c. c \<notin> {CHR 0x22, CHR ''&'', CHR 0x00, CHR 0x0D})
                   (butlast (drop 10 t))
      then Some (Some (butlast (drop 10 t)))
      else None)"

fun cellsOf :: "token list \<Rightarrow> celda list option" where
  "cellsOf [] = Some []"
| "cellsOf (Unclosed # ts) = None"
| "cellsOf (Chars w # ts) = (if list_all isAsciiWhitespace w then cellsOf ts else None)"
| "cellsOf (Tag t # Tag c # ts) =
     (case openTag t of
        None \<Rightarrow> None
      | Some cls \<Rightarrow>
          if c = ''/td''
          then map_option (\<lambda>cs. \<lparr>clase = cls, contenido = []\<rparr> # cs) (cellsOf ts)
          else None)"
| "cellsOf (Tag t # Chars x # Tag c # ts) =
     (case openTag t of
        None \<Rightarrow> None
      | Some cls \<Rightarrow>
          if c = ''/td'' \<and> plainText x
          then map_option (\<lambda>cs. \<lparr>clase = cls, contenido = x\<rparr> # cs) (cellsOf ts)
          else None)"
| "cellsOf (Tag t # ts) = None"

definition celdas :: "string \<Rightarrow> celda list option" where
  "celdas html = cellsOf (tokens html)"

subsection \<open>The submit listener\<close>

definition msgSinHorizonte :: string where
  "msgSinHorizonte = ''Por favor selecciona un horizonte de meses o una fecha objetivo.''"

definition msgSinEscenario :: string where
  "msgSinEscenario =
     ''Por favor selecciona un escenario clim'' @ [CHR 0xC3, CHR 0xA1] @ ''tico.''"

definition msgErrorPrediccion :: string where
  "msgErrorPrediccion = ''Error en la predicci'' @ [CHR 0xC3, CHR 0xB3] @ ''n.''"

definition textoCalculando :: string where
  "textoCalculando = ''Calculando...''"

definition textoCalcular :: string where
  "textoCalcular = ''Calcular riesgo de sequ'' @ [CHR 0xC3, CHR 0xAD] @ ''a''"

text \<open>
  The \<^verbatim>\<open>if\<close> chain that sets \<^verbatim>\<open>horizonteMeses\<close>: a string is truthy when it is not
  empty.
\<close>

definition horizonteMeses :: "host \<Rightarrow> campos \<Rightarrow> js_error + jsnumber" where
  "horizonteMeses h f =
     (if fechaObjetivo_value f \<noteq> [] then
        (case calcularMesesHastaFecha h (fechaObjetivo_value f) LAST_DATA_DATE of
           Inl e \<Rightarrow> Inl e
         | Inr n \<Rightarrow> Inr (Finite (of_int n)))
      else if horizonte_value f \<noteq> [] then Inr (parseInt10 h (horizonte_value f))
      else Inl (Error MissingHorizon msgSinHorizonte))"

definition predictRequest :: "payload \<Rightarrow> request" where
  "predictRequest p =
     \<lparr>url = BACKEND_URL @ ''/predict'',
      http_method = ''POST'',
      headers = [(''Content-Type'', ''application/json'')],
      body = p\<rparr>"

text \<open>
  The \<^verbatim>\<open>try\<close> block. It returns its completion, the page as it left it and the
  requests it sent, in order. A promise that rejects throws the rejection at its
  \<^verbatim>\<open>await\<close>. The body of a request is the payload object, before
  \<^verbatim>\<open>JSON.stringify\<close> writes it.
\<close>

definition tryBlock :: "host \<Rightarrow> campos \<Rightarrow> dom \<Rightarrow> completion \<times> dom \<times> request list" where
  "tryBlock h f d =
     (let escenarioValor = escenario_value f;
          nivelActual =
            (if trim (nivelUsuario_value f) = [] then None
             else Some (parseFloat h (nivelUsuario_value f)))
      in case horizonteMeses h f of
           Inl e \<Rightarrow> (Threw e, d, [])
         | Inr meses \<Rightarrow>
             if escenarioValor = [] then (Threw (Error MissingScenario msgSinEscenario), d, [])
             else
               (let payload = \<lparr>horizonte_meses = meses, escenario = escenarioValor,
                                nivel_actual_usuario = nivelActual\<rparr>;
                    req = predictRequest payload
                in case fetch h req of
                     Pending \<Rightarrow> (Suspended, d, [req])
                   | Rejected m \<Rightarrow> (Threw (Error TransportFailure m), d, [req])
                   | Fulfilled (ResponseNotOk json) \<Rightarrow>
                       (case json of
                          Pending \<Rightarrow> (Suspended, d, [req])
                        | Rejected m \<Rightarrow> (Threw (Error TransportFailure m), d, [req])
                        | Fulfilled NullData \<Rightarrow>
                            (Threw (Error PlatformException
                               (typeErrorMessage h ''errorData.detail'')), d, [req])
                        | Fulfilled (Data None) \<Rightarrow>
                            (Threw (Error RemoteRejection msgErrorPrediccion), d, [req])
                        | Fulfilled (Data (Some detail)) \<Rightarrow>
                            (Threw (Error RemoteRejection detail), d, [req]))
                   | Fulfilled (ResponseOk json) \<Rightarrow>
                       (case json of
                          Pending \<Rightarrow> (Suspended, d, [req])
                        | Rejected m \<Rightarrow> (Threw (Error TransportFailure m), d, [req])
                        | Fulfilled resultado \<Rightarrow>
                            (case mostrarResultados h resultado d of
                               (c, d') \<Rightarrow> (c, d', [req])))))"

definition finallyBlock :: "dom \<Rightarrow> dom" where
  "finallyBlock d = d\<lparr>calcularBtn_disabled := False, calcularBtn_textContent := textoCalcular\<rparr>"

text \<open>
  The listener of the form's \<^verbatim>\<open>submit\<close> event: the four assignments before the
  \<^verbatim>\<open>try\<close> (\<open>beforeTry\<close>), the \<^verbatim>\<open>try\<close> block, the \<^verbatim>\<open>catch\<close> clause, which
  shows the message of what was thrown, and the \<^verbatim>\<open>finally\<close> clause. It returns
  whether the handler ran to its end (it does not when a promise it awaits never
  settles), the page it leaves and the requests it sent. \<^verbatim>\<open>e.preventDefault()\<close> and
  \<^verbatim>\<open>console.error\<close> write nothing of the page and are left out.
\<close>

definition beforeTry :: "dom \<Rightarrow> dom" where
  "beforeTry d =
     d\<lparr>calcularBtn_disabled := True,
       calcularBtn_textContent := textoCalculando,
       errorMessage_visible := False,
       resultsSection_visible := False\<rparr>"

definition submitListener :: "host \<Rightarrow> campos \<Rightarrow> dom \<Rightarrow> bool \<times> dom \<times> request list" where
  "submitListener h f d =
     (let d = beforeTry d
      in case tryBlock h f d of
           (Done, d', reqs) \<Rightarrow> (True, finallyBlock d', reqs)
         | (Threw e, d', reqs) \<Rightarrow> (True, finallyBlock (mostrarError (message e) d'), reqs)
         | (Suspended, d', reqs) \<Rightarrow> (False, d', reqs))"

subsection \<open>Browsers and a page, for the examples\<close>

text \<open>
  \<open>hostUTC\<close> is a browser whose clock is set to UTC, \<open>hostBogota\<close> one set to the time
  of Bogota, five hours behind UTC all year, and \<open>hostAzores\<close> one set to the time of
  the Azores in 2021 and 2022: one hour behind UTC, and on UTC in summer, from 01:00 UTC
  of the last Sunday of March to 01:00 UTC of the last Sunday of October. Their network
  is down: \<^verbatim>\<open>fetch\<close> rejects. \<open>serving r\<close> is a browser on UTC to which the service answers \<open>r\<close>. They
  lower the case of ASCII letters only, read a number from a string of digits only,
  print a number of \<open>10\<^sup>2\<^sup>1\<close> or more with all the digits of its integer part but
  the zeros at the end, and give an exception the expression that threw it as its
  message.
\<close>

definition asciiLower :: "string \<Rightarrow> string" where
  "asciiLower s =
     map (\<lambda>c. if 65 \<le> (of_char c :: nat) \<and> (of_char c :: nat) \<le> 90
              then char_of ((of_char c :: nat) + 32) else c) s"

definition digitsNumber :: "string \<Rightarrow> jsnumber" where
  "digitsNumber s =
     (if s \<noteq> [] \<and> list_all isDigit s then Finite (of_int (digitsValue s)) else NaN)"

fun stripZeros :: "nat \<Rightarrow> nat" where
  "stripZeros n = (if n = 0 then 0 else if n mod 10 = 0 then stripZeros (n div 10) else n)"

definition allDigits :: "rat \<Rightarrow> nat \<times> nat" where
  "allDigits r = (stripZeros (nat \<lfloor>r\<rfloor>), length (decimalDigits (nat \<lfloor>r\<rfloor>)))"

definition hostUTC :: host where
  "hostUTC =
     \<lparr>LocalTZA = (\<lambda>t. 0), parseOther = (\<lambda>s. None), toLowerCase = asciiLower,
      parseInt10 = digitsNumber, parseFloat = digitsNumber, shortestDecimal = allDigits,
      typeErrorMessage = (\<lambda>e. e), fetch = (\<lambda>r. Rejected ''Failed to fetch'')\<rparr>"

definition hostBogota :: host where
  "hostBogota = hostUTC\<lparr>LocalTZA := (\<lambda>t. - 18000000)\<rparr>"

definition hostAzores :: host where
  "hostAzores =
     hostUTC\<lparr>LocalTZA :=
       (\<lambda>t. if (1616893200000 \<le> t \<and> t < 1635642000000)
                \<or> (1648342800000 \<le> t \<and> t < 1667091600000)
             then 0 else - 3600000)\<rparr>"


definition emptyPage :: dom where
  "emptyPage =
     \<lparr>calcularBtn_disabled = False, calcularBtn_textContent = textoCalcular,
      errorMessage_visible = False, errorMessage_textContent = [],
      resultsSection_visible = False, riesgoGlobal_textContent = [],
      riesgoBox_classList = [''riesgo-box''], sequiaInfo_textContent = [],
      prediccionTbody_rows = []\<rparr>"

subsection \<open>Dates as the statements below read them\<close>

text \<open>
  \<open>dateFields s\<close> is the year, month (1 to 12) and day of a date string
  \<^verbatim>\<open>YYYY-MM-DD\<close>, when it is one; such fields are a \<open>validDate\<close>: the month and the
  day exist. \<open>notLater a b\<close> is the order of the calendar on such
  fields, and \<open>notLaterMonth\<close> the same order with the day left out. \<open>outcome\<close> forgets
  the message of an error: what is left is the month count or the kind of the error.
\<close>

definition dateFields :: "string \<Rightarrow> (int \<times> int \<times> int) option" where
  "dateFields s = isoFields (s @ ''T00:00:00Z'')"

definition validDate :: "int \<times> int \<times> int \<Rightarrow> bool" where
  "validDate a = (case a of (y, m, d) \<Rightarrow> 1 \<le> m \<and> m \<le> 12 \<and> 1 \<le> d \<and> d \<le> DaysInMonth y m)"

definition notLater :: "int \<times> int \<times> int \<Rightarrow> int \<times> int \<times> int \<Rightarrow> bool" where
  "notLater a b =
     (case a of (y, m, d) \<Rightarrow> case b of (y', m', d') \<Rightarrow>
        y < y' \<or> (y = y' \<and> (m < m' \<or> (m = m' \<and> d \<le> d'))))"

definition notLaterMonth :: "int \<times> int \<times> int \<Rightarrow> int \<times> int \<times> int \<Rightarrow> bool" where
  "notLaterMonth a b =
     (case a of (y, m, d) \<Rightarrow> case b of (y', m', d') \<Rightarrow> y < y' \<or> (y = y' \<and> m \<le> m'))"

definition monthsBetween :: "int \<times> int \<times> int \<Rightarrow> int \<times> int \<times> int \<Rightarrow> int" where
  "monthsBetween a b =
     (case a of (y, m, d) \<Rightarrow> case b of (y', m', d') \<Rightarrow> (y - y') * 12 + (m - m'))"

definition outcome :: "js_error + int \<Rightarrow> error_kind + int" where
  "outcome r = map_sum kind id r"

subsection \<open>Examples, texts of two decimals and the success path\<close>

text \<open>
  \<open>twoDecimals s\<close>: the text is an optional minus sign, one digit or more, a point and
  two digits. \<open>nivelEjemplo\<close> is the double nearest to 12.345 (its mantissa over
  \<open>2\<^sup>4\<^sup>9\<close>), the number \<^verbatim>\<open>JSON.parse\<close> makes of the text \<^verbatim>\<open>12.345\<close>, and
  \<open>mesEjemplo\<close> the entry of the specification's example with it; \<open>filaEjemplo\<close> is the
  text of its row and \<open>celdasEjemplo\<close> are its cells. \<open>textosDeFila h m\<close> are the texts
  of the cells of the row of an entry \<open>m\<close>, in their order. \<open>sinDatos\<close> is the form with
  every field empty.
\<close>

definition twoDecimals :: "string \<Rightarrow> bool" where
  "twoDecimals s =
     (let t = (if take 1 s = ''-'' then drop 1 s else s); k = length t
      in 4 \<le> k \<and> t ! (k - 3) = CHR ''.''
         \<and> list_all isDigit (take (k - 3) t) \<and> list_all isDigit (drop (k - 2) t))"

definition nivelEjemplo :: rat where
  "nivelEjemplo = 6949617174986097 / 2 ^ 49"

definition mesEjemplo :: mes where
  "mesEjemplo =
     \<lparr>fecha = ''2022-05'', nivel = Some (Finite nivelEjemplo), situacion = ''Alerta'',
      es_sequia = True, es_nivel_bajo = False\<rparr>"


definition filaEjemplo :: string where
  "filaEjemplo =
     sangria 12 @ ''<td>2022-05</td>''
     @ sangria 12 @ ''<td>12.35</td>''
     @ sangria 12 @ ''<td class='' @ [CHR 0x22] @ ''situacion-sequia'' @ [CHR 0x22] @ ''>Alerta</td>''
     @ sangria 12 @ ''<td class='' @ [CHR 0x22] @ ''boolean-true'' @ [CHR 0x22] @ ''>'' @ textoSi @ ''</td>''
     @ sangria 12 @ ''<td class='' @ [CHR 0x22] @ ''boolean-false'' @ [CHR 0x22] @ ''>No</td>''
     @ sangria 8"

definition celdasEjemplo :: "celda list" where
  "celdasEjemplo =
     [\<lparr>clase = None, contenido = ''2022-05''\<rparr>,
      \<lparr>clase = None, contenido = ''12.35''\<rparr>,
      \<lparr>clase = Some ''situacion-sequia'', contenido = ''Alerta''\<rparr>,
      \<lparr>clase = Some ''boolean-true'', contenido = textoSi\<rparr>,
      \<lparr>clase = Some ''boolean-false'', contenido = textoNo\<rparr>]"

definition textosDeFila :: "host \<Rightarrow> mes \<Rightarrow> string list option" where
  "textosDeFila h m =
     (case filaDeMes h (Some m) of
        Inl e \<Rightarrow> None
      | Inr html \<Rightarrow> map_option (map contenido) (celdas html))"

definition sinDatos :: campos where
  "sinDatos =
     \<lparr>horizonte_value = [], escenario_value = [], nivelUsuario_value = [],
      fechaObjetivo_value = []\<rparr>"





declare decimalDigits.simps [simp del]

section \<open>The calendar\<close>

text \<open>
  A year starts \<open>DaysInYear\<close> days after the year before it: the three quotients of
  \<open>DayFromYear\<close> step where the leap year rule says so.
\<close>

lemma div_succ:
  fixes a k :: int
  assumes k: "0 < k"
  shows "(a + 1) div k = a div k + (if (a + 1) mod k = 0 then 1 else 0)"
proof -
  define q r where "q = a div k" and "r = a mod k"
  have a: "a = r + q * k" by (simp add: q_def r_def)
  have r: "0 \<le> r" "r < k" using k by (simp_all add: r_def)
  show ?thesis
  proof (cases "r + 1 = k")
    case True
    then have "a + 1 = (q + 1) * k" using a by (simp add: algebra_simps)
    then have "(a + 1) div k = q + 1" "(a + 1) mod k = 0" using k by simp_all
    then show ?thesis by (simp add: q_def)
  next
    case False
    with r have r1: "0 \<le> r + 1" "r + 1 < k" by simp_all
    have "a + 1 = (r + 1) + q * k" using a by simp
    then have "(a + 1) div k = q + (r + 1) div k" "(a + 1) mod k = (r + 1) mod k"
      using k by (simp_all only: div_mult_self1 mod_mult_self1)
    moreover have "(r + 1) div k = 0" "(r + 1) mod k = r + 1"
      using r1 by (simp_all add: div_pos_pos_trivial mod_pos_pos_trivial)
    ultimately show ?thesis using r by (simp add: q_def)
  qed
qed

lemma mod_shift:
  fixes y :: int
  shows "(y - 1968) mod 4 = y mod 4" "(y - 1900) mod 100 = y mod 100"
    "(y - 1600) mod 400 = y mod 400"
  using mod_mult_self1 [of y "- 492" 4] mod_mult_self1 [of y "- 19" 100]
    mod_mult_self1 [of y "- 4" 400]
  by simp_all

lemma mod_400_100: "y mod 400 = 0 \<Longrightarrow> y mod 100 = 0" for y :: int
proof -
  assume "y mod 400 = 0"
  then have "400 dvd y" by (simp add: mod_eq_0_iff_dvd)
  moreover have "(100::int) dvd 400" by simp
  ultimately have "100 dvd y" by (rule dvd_trans [rotated])
  then show ?thesis by (simp add: mod_eq_0_iff_dvd)
qed

lemma mod_100_4: "y mod 100 = 0 \<Longrightarrow> y mod 4 = 0" for y :: int
proof -
  assume "y mod 100 = 0"
  then have "100 dvd y" by (simp add: mod_eq_0_iff_dvd)
  moreover have "(4::int) dvd 100" by simp
  ultimately have "4 dvd y" by (rule dvd_trans [rotated])
  then show ?thesis by (simp add: mod_eq_0_iff_dvd)
qed

lemma DayFromYear_step: "DayFromYear (y + 1) = DayFromYear y + DaysInYear y"
proof -
  have d4: "(y - 1968) div 4 = (y - 1969) div 4 + (if y mod 4 = 0 then 1 else 0)"
    using div_succ [of 4 "y - 1969"] by (simp add: mod_shift)
  have d100: "(y - 1900) div 100 = (y - 1901) div 100 + (if y mod 100 = 0 then 1 else 0)"
    using div_succ [of 100 "y - 1901"] by (simp add: mod_shift)
  have d400: "(y - 1600) div 400 = (y - 1601) div 400 + (if y mod 400 = 0 then 1 else 0)"
    using div_succ [of 400 "y - 1601"] by (simp add: mod_shift)
  have "DayFromYear (y + 1) =
        365 * (y - 1969) + (y - 1968) div 4 - (y - 1900) div 100 + (y - 1600) div 400"
    by (simp only: DayFromYear_def) (simp only: add_diff_eq [symmetric] diff_add_eq [symmetric], simp)
  also have "\<dots> = DayFromYear y + (365 + (if y mod 4 = 0 then 1 else 0)
        - (if y mod 100 = 0 then 1 else 0) + (if y mod 400 = 0 then 1 else 0))"
    unfolding d4 d100 d400 DayFromYear_def by (simp only: algebra_simps)
  also have "365 + (if y mod 4 = 0 then 1 else 0)
        - (if y mod 100 = 0 then 1 else 0) + (if y mod 400 = 0 then 1 else 0) = DaysInYear y"
    using mod_400_100 [of y] mod_100_4 [of y] unfolding DaysInYear_def
    by (cases "y mod 4 = 0"; cases "y mod 100 = 0"; cases "y mod 400 = 0"; simp only: if_True if_False; simp)
  finally show ?thesis .
qed

lemma DaysInYear_ge: "365 \<le> DaysInYear y" and DaysInYear_le: "DaysInYear y \<le> 366"
  by (simp_all add: DaysInYear_def)

lemma DayFromYear_less_succ: "DayFromYear y < DayFromYear (y + 1)"
  using DaysInYear_ge [of y] by (simp add: DayFromYear_step)

lemma DayFromYear_mono_nat: "DayFromYear y \<le> DayFromYear (y + int k)"
proof (induction k)
  case 0
  show ?case by simp
next
  case (Suc k)
  have "DayFromYear (y + int k) < DayFromYear ((y + int k) + 1)"
    by (rule DayFromYear_less_succ)
  moreover have "y + int (Suc k) = (y + int k) + 1" by simp
  ultimately show ?case using Suc by (simp only:)
qed

lemma DayFromYear_mono: assumes "y \<le> z" shows "DayFromYear y \<le> DayFromYear z"
proof -
  from assms have "z = y + int (nat (z - y))" by simp
  then show ?thesis using DayFromYear_mono_nat [of y "nat (z - y)"] by simp
qed

text \<open>The search of \<open>YearFromDay\<close> ends on the year the day is in.\<close>

lemma yearDown_start: "DayFromYear (yearDown y d) \<le> d"
proof (induction y d rule: yearDown.induct)
  case (1 y d)
  show ?case
  proof (cases "d < DayFromYear y")
    case True
    with "1.IH" show ?thesis by (subst yearDown.simps) simp
  next
    case False
    then show ?thesis by (subst yearDown.simps) simp
  qed
qed

lemma yearUp_bounds:
  "DayFromYear y \<le> d \<Longrightarrow> DayFromYear (yearUp y d) \<le> d \<and> d < DayFromYear (yearUp y d + 1)"
proof (induction y d rule: yearUp.induct)
  case (1 y d)
  show ?case
  proof (cases "DayFromYear (y + 1) \<le> d")
    case True
    with "1.IH" show ?thesis by (subst (1 2) yearUp.simps) simp
  next
    case False
    with "1.prems" show ?thesis by (subst (1 2) yearUp.simps) simp
  qed
qed

lemma YearFromDay_bounds:
  "DayFromYear (YearFromDay d) \<le> d \<and> d < DayFromYear (YearFromDay d + 1)"
  unfolding YearFromDay_def by (rule yearUp_bounds) (rule yearDown_start)

lemma YearFromDay_unique:
  assumes lo: "DayFromYear y \<le> d" and hi: "d < DayFromYear (y + 1)"
  shows "YearFromDay d = y"
proof (rule ccontr)
  let ?Y = "YearFromDay d"
  assume ne: "?Y \<noteq> y"
  have b: "DayFromYear ?Y \<le> d" "d < DayFromYear (?Y + 1)"
    using YearFromDay_bounds [of d] by simp_all
  show False
  proof (cases "?Y < y")
    case True
    then have "DayFromYear (?Y + 1) \<le> DayFromYear y" by (intro DayFromYear_mono) simp
    with lo b show False by simp
  next
    case False
    with ne have "DayFromYear (y + 1) \<le> DayFromYear ?Y" by (intro DayFromYear_mono) simp
    with hi b show False by simp
  qed
qed

text \<open>
  \<open>YearFromDay\<close> is the year of the specification: the one year that starts on or before
  the day and whose next year starts after it.
\<close>

lemma YearFromDay_iff:
  "(YearFromDay d = y) = (DayFromYear y \<le> d \<and> d < DayFromYear (y + 1))"
  using YearFromDay_bounds [of d] YearFromDay_unique [of y d] by auto

lemma Day_of_midnight_plus:
  assumes "0 \<le> off" "off < msPerDay"
  shows "Day (MakeDate day 0 + off) = day"
  using assms unfolding Day_def MakeDate_def msPerDay_def
  by (simp add: div_pos_pos_trivial)

text \<open>
  A date that exists gives back its year and its month: on the day of \<open>utcMidnight\<close>
  and at every time of that day.
\<close>

lemma isoFields_valid:
  assumes "isoFields s = Some (y, m, d)"
  shows "1 \<le> m" "m \<le> 12" "1 \<le> d" "d \<le> DaysInMonth y m"
  using assms by (auto simp: isoFields_def Let_def split: if_splits)

lemma month_cases:
  assumes "1 \<le> m" "m \<le> (12::int)"
  shows "m = 1 \<or> m = 2 \<or> m = 3 \<or> m = 4 \<or> m = 5 \<or> m = 6 \<or> m = 7 \<or> m = 8 \<or> m = 9
         \<or> m = 10 \<or> m = 11 \<or> m = 12"
  using assms by arith

lemma month_table:
  assumes l: "0 \<le> l" "l \<le> 1" and m: "1 \<le> m" "m \<le> 12"
    and d: "1 \<le> d"
      "d \<le> (if m = 2 then 28 + l else if m = 4 \<or> m = 6 \<or> m = 9 \<or> m = 11 then 30 else 31)"
  shows "0 \<le> DayFromMonth (m - 1) l + d - 1"
    and "DayFromMonth (m - 1) l + d - 1 < 365 + l"
    and "MonthFromDay (DayFromMonth (m - 1) l + d - 1) l = m - 1"
  using month_cases [OF m] l d
  by (elim disjE; simp add: DayFromMonth_def MonthFromDay_def)+

lemma leap_flag:
  "DaysInYear y = 365 + (if DaysInYear y = 366 then 1 else 0)"
  "DaysInMonth y m =
     (if m = 2 then 28 + (if DaysInYear y = 366 then 1 else 0)
      else if m = 4 \<or> m = 6 \<or> m = 9 \<or> m = 11 then 30 else 31)"
  by (simp_all add: DaysInYear_def DaysInMonth_def)

lemma MakeDay_valid:
  assumes "1 \<le> m" "m \<le> 12"
  shows "MakeDay y (m - 1) d =
         DayFromYear y + DayFromMonth (m - 1) (if DaysInYear y = 366 then 1 else 0) + d - 1"
proof -
  from assms have "(m - 1) div 12 = 0" "(m - 1) mod 12 = m - 1" by simp_all
  then show ?thesis by (simp add: MakeDay_def)
qed

lemma Day_utcMidnight:
  assumes "0 \<le> off" "off < msPerDay"
  shows "Day (utcMidnight (y, m, d) + off) = MakeDay y (m - 1) d"
  using Day_of_midnight_plus [OF assms] by (simp add: utcMidnight_def)

lemma valid_date_table:
  assumes v: "1 \<le> m" "m \<le> 12" "1 \<le> d" "d \<le> DaysInMonth y m"
  defines "l \<equiv> (if DaysInYear y = 366 then 1 else 0 :: int)"
  shows "0 \<le> DayFromMonth (m - 1) l + d - 1"
    and "DayFromMonth (m - 1) l + d - 1 < DaysInYear y"
    and "MonthFromDay (DayFromMonth (m - 1) l + d - 1) l = m - 1"
proof -
  have l: "0 \<le> l" "l \<le> 1" by (simp_all add: l_def)
  have d: "d \<le> (if m = 2 then 28 + l else if m = 4 \<or> m = 6 \<or> m = 9 \<or> m = 11 then 30 else 31)"
    using v(4) unfolding l_def leap_flag(2) [symmetric] .
  have y: "DaysInYear y = 365 + l" unfolding l_def by (rule leap_flag(1))
  show "0 \<le> DayFromMonth (m - 1) l + d - 1"
    by (rule month_table(1) [OF l v(1,2,3) d])
  show "DayFromMonth (m - 1) l + d - 1 < DaysInYear y"
    unfolding y by (rule month_table(2) [OF l v(1,2,3) d])
  show "MonthFromDay (DayFromMonth (m - 1) l + d - 1) l = m - 1"
    by (rule month_table(3) [OF l v(1,2,3) d])
qed

lemma YearFromTime_valid:
  assumes v: "1 \<le> m" "m \<le> 12" "1 \<le> d" "d \<le> DaysInMonth y m"
    and off: "0 \<le> off" "off < msPerDay"
  shows "YearFromTime (utcMidnight (y, m, d) + off) = y"
proof -
  have "YearFromDay (MakeDay y (m - 1) d) = y"
  proof (rule YearFromDay_unique)
    show "DayFromYear y \<le> MakeDay y (m - 1) d"
      using valid_date_table(1) [OF v] by (simp add: MakeDay_valid [OF v(1,2)])
    show "MakeDay y (m - 1) d < DayFromYear (y + 1)"
      using valid_date_table(2) [OF v] by (simp add: MakeDay_valid [OF v(1,2)] DayFromYear_step)
  qed
  then show ?thesis by (simp add: YearFromTime_def Day_utcMidnight [OF off])
qed

lemma MonthFromTime_valid:
  assumes v: "1 \<le> m" "m \<le> 12" "1 \<le> d" "d \<le> DaysInMonth y m"
    and off: "0 \<le> off" "off < msPerDay"
  shows "MonthFromTime (utcMidnight (y, m, d) + off) = m - 1"
proof -
  let ?l = "if DaysInYear y = 366 then 1 else 0 :: int"
  let ?t = "utcMidnight (y, m, d) + off"
  have yr: "YearFromTime ?t = y" by (rule YearFromTime_valid [OF v off])
  have dw: "DayWithinYear ?t = DayFromMonth (m - 1) ?l + d - 1"
    by (simp add: DayWithinYear_def yr Day_utcMidnight [OF off] MakeDay_valid [OF v(1,2)])
  have lp: "InLeapYear ?t = ?l" by (simp add: InLeapYear_def yr)
  show ?thesis
    unfolding MonthFromTime_def dw lp by (rule valid_date_table(3) [OF v])
qed

text \<open>The order of the calendar is the order of the time values.\<close>

lemma DayFromMonth_mono:
  assumes l: "0 \<le> l" and ab: "1 \<le> a" "a \<le> b" "b \<le> 12"
  shows "DayFromMonth (a - 1) l \<le> DayFromMonth (b - 1) l"
proof -
  have a: "1 \<le> a" "a \<le> 12" and b: "1 \<le> b" "b \<le> 12" using ab by simp_all
  show ?thesis
    using month_cases [OF a] month_cases [OF b] ab(2) l
    by (elim disjE; simp add: DayFromMonth_def)
qed

lemma DayFromMonth_next:
  assumes l: "0 \<le> l" "l \<le> 1" and m: "1 \<le> m" "m \<le> 11"
  shows "DayFromMonth (m - 1) l
         + (if m = 2 then 28 + l else if m = 4 \<or> m = 6 \<or> m = 9 \<or> m = 11 then 30 else 31)
         = DayFromMonth m l"
proof -
  have m': "1 \<le> m" "m \<le> 12" using m by simp_all
  show ?thesis
    using month_cases [OF m'] m(2) by (elim disjE; simp add: DayFromMonth_def)
qed

lemma dayOfYear_strict:
  assumes l: "0 \<le> l" "l \<le> 1"
    and m: "1 \<le> m" "m \<le> 12"
    and d: "d \<le> (if m = 2 then 28 + l else if m = 4 \<or> m = 6 \<or> m = 9 \<or> m = 11 then 30 else 31)"
    and m': "m' \<le> 12" and d': "1 \<le> d'"
    and lt: "m < m' \<or> (m = m' \<and> d < d')"
  shows "DayFromMonth (m - 1) l + d - 1 < DayFromMonth (m' - 1) l + d' - 1"
proof (cases "m < m'")
  case True
  then have m11: "m \<le> 11" using m' by simp
  have "DayFromMonth (m - 1) l + d \<le> DayFromMonth m l"
    using DayFromMonth_next [OF l m(1) m11] d by simp
  also have "DayFromMonth m l \<le> DayFromMonth (m' - 1) l"
    using DayFromMonth_mono [of l "m + 1" m'] l m True m' by simp
  finally show ?thesis using d' by simp
next
  case False
  with lt show ?thesis by simp
qed

lemma MakeDay_strict:
  assumes a: "validDate (y, m, d)" and b: "validDate (y', m', d')"
    and lt: "y < y' \<or> (y = y' \<and> (m < m' \<or> (m = m' \<and> d < d')))"
  shows "MakeDay y (m - 1) d < MakeDay y' (m' - 1) d'"
proof -
  have va: "1 \<le> m" "m \<le> 12" "1 \<le> d" "d \<le> DaysInMonth y m"
    using a by (simp_all add: validDate_def)
  have vb: "1 \<le> m'" "m' \<le> 12" "1 \<le> d'" "d' \<le> DaysInMonth y' m'"
    using b by (simp_all add: validDate_def)
  let ?l = "\<lambda>y. (if DaysInYear y = 366 then 1 else 0 :: int)"
  show ?thesis
  proof (cases "y < y'")
    case True
    have "MakeDay y (m - 1) d < DayFromYear (y + 1)"
      using valid_date_table(2) [OF va] by (simp add: MakeDay_valid [OF va(1,2)] DayFromYear_step)
    also have "DayFromYear (y + 1) \<le> DayFromYear y'"
      using True by (intro DayFromYear_mono) simp
    also have "DayFromYear y' \<le> MakeDay y' (m' - 1) d'"
      using valid_date_table(1) [OF vb] by (simp add: MakeDay_valid [OF vb(1,2)])
    finally show ?thesis .
  next
    case False
    with lt have eq: "y = y'" and lt': "m < m' \<or> (m = m' \<and> d < d')" by simp_all
    have l: "0 \<le> ?l y" "?l y \<le> 1" by simp_all
    have d: "d \<le> (if m = 2 then 28 + ?l y else if m = 4 \<or> m = 6 \<or> m = 9 \<or> m = 11 then 30 else 31)"
      using va(4) unfolding leap_flag(2) .
    have "DayFromMonth (m - 1) (?l y) + d - 1 < DayFromMonth (m' - 1) (?l y) + d' - 1"
      by (rule dayOfYear_strict [OF l va(1,2) d vb(2,3) lt'])
    then show ?thesis
      by (simp add: MakeDay_valid [OF va(1,2)] MakeDay_valid [OF vb(1,2)] eq [symmetric])
  qed
qed

lemma utcMidnight_less:
  assumes "validDate (y, m, d)" "validDate (y', m', d')"
    and "y < y' \<or> (y = y' \<and> (m < m' \<or> (m = m' \<and> d < d')))"
  shows "utcMidnight (y, m, d) < utcMidnight (y', m', d')"
  using MakeDay_strict [OF assms] by (simp add: utcMidnight_def MakeDate_def msPerDay_def)

lemma utcMidnight_le_iff:
  assumes a: "validDate a" and b: "validDate b"
  shows "(utcMidnight a \<le> utcMidnight b) = notLater a b"
proof -
  obtain y m d where A: "a = (y, m, d)" by (cases a) auto
  obtain y' m' d' where B: "b = (y', m', d')" by (cases b) auto
  show ?thesis
  proof (cases "notLater a b")
    case True
    then have "a = b \<or> (y < y' \<or> (y = y' \<and> (m < m' \<or> (m = m' \<and> d < d'))))"
      unfolding A B notLater_def by auto
    then show ?thesis
    proof
      assume "a = b"
      with True show ?thesis by simp
    next
      assume "y < y' \<or> (y = y' \<and> (m < m' \<or> (m = m' \<and> d < d')))"
      then have "utcMidnight a < utcMidnight b"
        using utcMidnight_less a b unfolding A B by blast
      with True show ?thesis by simp
    qed
  next
    case False
    then have "y' < y \<or> (y' = y \<and> (m' < m \<or> (m' = m \<and> d' < d)))"
      unfolding A B notLater_def by auto
    then have "utcMidnight b < utcMidnight a"
      using utcMidnight_less b a unfolding A B by blast
    with False show ?thesis by simp
  qed
qed

lemma isoFields_validDate: "isoFields s = Some a \<Longrightarrow> validDate a"
  by (auto simp: isoFields_def validDate_def Let_def split: if_splits)

lemma dateFields_validDate: "dateFields s = Some a \<Longrightarrow> validDate a"
  unfolding dateFields_def by (rule isoFields_validDate)

text \<open>Three time values as every clock has them.\<close>

lemma utcMidnight_examples:
  "utcMidnight (1970, 1, 1) = 0"
  "utcMidnight (2000, 2, 29) = 951782400000"
  "utcMidnight (2021, 3, 1) = 1614556800000"
  by code_simp+

section \<open>calcularMesesHastaFecha\<close>

text \<open>
  East of Greenwich and on UTC, local time at midnight UTC is the same day: the local
  year and month are those of the date, and the month count is the formula.
\<close>

lemma getters_east:
  assumes v: "validDate (y, m, d)"
    and off: "0 \<le> LocalTZA h (utcMidnight (y, m, d))" "LocalTZA h (utcMidnight (y, m, d)) < msPerDay"
  shows "getFullYear h (utcMidnight (y, m, d)) = y"
    and "getMonth h (utcMidnight (y, m, d)) = m - 1"
proof -
  have va: "1 \<le> m" "m \<le> 12" "1 \<le> d" "d \<le> DaysInMonth y m"
    using v by (simp_all add: validDate_def)
  show "getFullYear h (utcMidnight (y, m, d)) = y"
    unfolding getFullYear_def LocalTime_def by (rule YearFromTime_valid [OF va off])
  show "getMonth h (utcMidnight (y, m, d)) = m - 1"
    unfolding getMonth_def LocalTime_def by (rule MonthFromTime_valid [OF va off])
qed

lemma calcular_on_dates:
  assumes T: "dateFields (fechaObjetivoStr T) = Some a" and R: "dateFields R = Some b"
  shows "calcularMesesHastaFecha h T R =
     (if notLater a b then Inl (Error NonFutureTarget (msgNoPosterior T))
      else Inr ((getFullYear h (utcMidnight a) - getFullYear h (utcMidnight b)) * 12
                + (getMonth h (utcMidnight a) - getMonth h (utcMidnight b))))"
proof -
  have le: "(utcMidnight a \<le> utcMidnight b) = notLater a b"
    by (rule utcMidnight_le_iff [OF dateFields_validDate [OF T] dateFields_validDate [OF R]])
  have nT: "newDate h (fechaObjetivoStr T @ ''T00:00:00Z'') = Some (utcMidnight a)"
    using T by (simp add: newDate_def dateFields_def)
  have nR: "newDate h (R @ ''T00:00:00Z'') = Some (utcMidnight b)"
    using R by (simp add: newDate_def dateFields_def)
  show ?thesis
    unfolding calcularMesesHastaFecha_def nT nR by (simp add: le Let_def)
qed

lemma months_formula_east:
  assumes T: "dateFields (fechaObjetivoStr T) = Some a" and R: "dateFields R = Some b"
    and later: "\<not> notLater a b"
    and offT: "0 \<le> LocalTZA h (utcMidnight a)" "LocalTZA h (utcMidnight a) < msPerDay"
    and offR: "0 \<le> LocalTZA h (utcMidnight b)" "LocalTZA h (utcMidnight b) < msPerDay"
  shows "calcularMesesHastaFecha h T R = Inr (monthsBetween a b)"
proof -
  obtain y m d where A: "a = (y, m, d)" by (cases a) auto
  obtain y' m' d' where B: "b = (y', m', d')" by (cases b) auto
  have va: "validDate (y, m, d)" using dateFields_validDate [OF T] by (simp add: A)
  have vb: "validDate (y', m', d')" using dateFields_validDate [OF R] by (simp add: B)
  have ga: "getFullYear h (utcMidnight a) = y" "getMonth h (utcMidnight a) = m - 1"
    using getters_east [OF va] offT by (simp_all add: A)
  have gb: "getFullYear h (utcMidnight b) = y'" "getMonth h (utcMidnight b) = m' - 1"
    using getters_east [OF vb] offR by (simp_all add: B)
  show ?thesis
    unfolding calcular_on_dates [OF T R] ga gb using later by (simp add: monthsBetween_def A B)
qed

text \<open>A full date is not completed; \<open>includes_js\<close> is the search of a substring.\<close>

lemma fechaObjetivoStr_date: "length T = 10 \<Longrightarrow> fechaObjetivoStr T = T"
  by (simp add: fechaObjetivoStr_def)

lemma dateFields_length: "dateFields T = Some a \<Longrightarrow> length T = 10"
  by (simp add: dateFields_def isoFields_def split: if_splits)

lemma includes_js_iff: "includes_js s sub = (\<exists>p q. s = p @ sub @ q)"
proof (induction s)
  case Nil
  show ?case by auto
next
  case (Cons c cs)
  show ?case
  proof
    assume "includes_js (c # cs) sub"
    then consider "take (length sub) (c # cs) = sub" | "includes_js cs sub" by auto
    then show "\<exists>p q. c # cs = p @ sub @ q"
    proof cases
      case 1
      then have "c # cs = [] @ sub @ drop (length sub) (c # cs)"
        by (metis append_Nil append_take_drop_id)
      then show ?thesis by blast
    next
      case 2
      with Cons obtain p q where "cs = p @ sub @ q" by auto
      then have "c # cs = (c # p) @ sub @ q" by simp
      then show ?thesis by blast
    qed
  next
    assume "\<exists>p q. c # cs = p @ sub @ q"
    then obtain p q where pq: "c # cs = p @ sub @ q" by auto
    show "includes_js (c # cs) sub"
    proof (cases p)
      case Nil
      with pq have "take (length sub) (c # cs) = sub" by simp
      then show ?thesis by simp
    next
      case (Cons a p')
      with pq have "cs = p' @ sub @ q" by simp
      with Cons.IH have "includes_js cs sub" by auto
      then show ?thesis by simp
    qed
  qed
qed

lemma includes_js_append: "includes_js (p @ s @ q) s"
  unfolding includes_js_iff by blast

text \<open>
  Behind UTC, local time at midnight UTC is the day before. The day before a first of
  the month is in the month before: there the local month count \<open>12 * year + month\<close>
  is one less than that of the date.
\<close>

lemma Day_of_midnight_minus:
  assumes "- msPerDay \<le> off" "off < 0"
  shows "Day (MakeDate day 0 + off) = day - 1"
proof -
  have e: "MakeDate day 0 + off = MakeDate (day - 1) 0 + (off + msPerDay)"
    by (simp add: MakeDate_def algebra_simps)
  have "0 \<le> off + msPerDay" "off + msPerDay < msPerDay" using assms by simp_all
  then have "Day (MakeDate (day - 1) 0 + (off + msPerDay)) = day - 1"
    by (rule Day_of_midnight_plus)
  then show ?thesis unfolding e .
qed

lemma Day_utcMidnight_zero: "Day (utcMidnight (y, m, d)) = MakeDay y (m - 1) d"
  using Day_utcMidnight [of 0 y m d] by (simp add: msPerDay_def)

lemma fields_of_day:
  assumes v: "validDate (y, m, d)" and t: "Day t = MakeDay y (m - 1) d"
  shows "YearFromTime t = y" and "MonthFromTime t = m - 1"
proof -
  have va: "1 \<le> m" "m \<le> 12" "1 \<le> d" "d \<le> DaysInMonth y m"
    using v by (simp_all add: validDate_def)
  have off: "(0::int) \<le> 0" "0 < msPerDay" by (simp_all add: msPerDay_def)
  have d: "Day t = Day (utcMidnight (y, m, d) + 0)"
    using t Day_utcMidnight [OF off, of y m d] by simp
  have "YearFromTime t = YearFromTime (utcMidnight (y, m, d) + 0)"
    unfolding YearFromTime_def d ..
  then show "YearFromTime t = y" using YearFromTime_valid [OF va off] by simp
  have "MonthFromTime t = MonthFromTime (utcMidnight (y, m, d) + 0)"
    unfolding MonthFromTime_def DayWithinYear_def InLeapYear_def YearFromTime_def d ..
  then show "MonthFromTime t = m - 1" using MonthFromTime_valid [OF va off] by simp
qed

lemma previous_day:
  assumes v: "validDate (y, m, d)"
  shows "\<exists>y' m' d'. validDate (y', m', d') \<and> MakeDay y' (m' - 1) d' = MakeDay y (m - 1) d - 1
           \<and> y' * 12 + (m' - 1) = y * 12 + (m - 1) - (if d = 1 then 1 else 0)"
proof -
  have va: "1 \<le> m" "m \<le> 12" "1 \<le> d" "d \<le> DaysInMonth y m"
    using v by (simp_all add: validDate_def)
  let ?l = "\<lambda>y. (if DaysInYear y = 366 then 1 else 0 :: int)"
  consider (same) "2 \<le> d" | (month) "d = 1" "2 \<le> m" | (year) "d = 1" "m = 1"
    using va by linarith
  then show ?thesis
  proof cases
    case same
    have "validDate (y, m, d - 1)" using va same by (simp add: validDate_def)
    moreover have "MakeDay y (m - 1) (d - 1) = MakeDay y (m - 1) d - 1"
      by (simp add: MakeDay_valid [OF va(1,2)])
    ultimately show ?thesis using same by (intro exI [of _ y] exI [of _ m] exI [of _ "d - 1"]) simp
  next
    case month
    define l where "l = ?l y"
    define len where "len = DaysInMonth y (m - 1)"
    have m1: "1 \<le> m - 1" "m - 1 \<le> 11" "m - 1 \<le> 12" using month va by simp_all
    have l: "0 \<le> l" "l \<le> 1" by (simp_all add: l_def)
    have n: "DayFromMonth (m - 1 - 1) l + len = DayFromMonth (m - 1) l"
      using DayFromMonth_next [OF l m1(1,2)] unfolding l_def len_def leap_flag(2) .
    have len1: "1 \<le> len" by (simp add: len_def DaysInMonth_def)
    have A: "MakeDay y (m - 1 - 1) len = DayFromYear y + DayFromMonth (m - 1 - 1) l + len - 1"
      unfolding l_def by (rule MakeDay_valid [OF m1(1,3)])
    have B: "MakeDay y (m - 1) d = DayFromYear y + DayFromMonth (m - 1) l + d - 1"
      unfolding l_def by (rule MakeDay_valid [OF va(1,2)])
    have "validDate (y, m - 1, len)"
      using m1 len1 by (simp add: validDate_def len_def)
    moreover have "MakeDay y (m - 1 - 1) len = MakeDay y (m - 1) d - 1"
      unfolding A B using n month(1) by linarith
    moreover have "y * 12 + (m - 1 - 1) = y * 12 + (m - 1) - (if d = 1 then 1 else 0)"
      using month(1) by simp
    ultimately show ?thesis by blast
  next
    case year
    define l' where "l' = ?l (y - 1)"
    have s: "DayFromYear y = DayFromYear (y - 1) + DaysInYear (y - 1)"
      using DayFromYear_step [of "y - 1"] by simp
    have len: "DaysInYear (y - 1) = 365 + l'" unfolding l'_def by (rule leap_flag(1))
    have A: "MakeDay (y - 1) (12 - 1) 31 = DayFromYear (y - 1) + DayFromMonth (12 - 1) l' + 31 - 1"
      unfolding l'_def by (rule MakeDay_valid) simp_all
    have B: "MakeDay y (m - 1) d = DayFromYear y + DayFromMonth (m - 1) (?l y) + d - 1"
      by (rule MakeDay_valid [OF va(1,2)])
    have C: "DayFromMonth (12 - 1) l' = 334 + l'" "DayFromMonth (m - 1) (?l y) = 0"
      using year(2) by (simp_all add: DayFromMonth_def)
    have "validDate (y - 1, 12, 31)" by (simp add: validDate_def DaysInMonth_def)
    moreover have "MakeDay (y - 1) (12 - 1) 31 = MakeDay y (m - 1) d - 1"
      unfolding A B C s len using year(1) by linarith
    moreover have "(y - 1) * 12 + (12 - 1) = y * 12 + (m - 1) - (if d = 1 then 1 else 0)"
      using year by simp
    ultimately show ?thesis by blast
  qed
qed

lemma getters_west:
  assumes v: "validDate (y, m, d)"
    and off: "- msPerDay \<le> LocalTZA h (utcMidnight (y, m, d))" "LocalTZA h (utcMidnight (y, m, d)) < 0"
  shows "getFullYear h (utcMidnight (y, m, d)) * 12 + getMonth h (utcMidnight (y, m, d))
         = y * 12 + (m - 1) - (if d = 1 then 1 else 0)"
proof -
  let ?t = "LocalTime h (utcMidnight (y, m, d))"
  obtain y' m' d' where p: "validDate (y', m', d')"
      "MakeDay y' (m' - 1) d' = MakeDay y (m - 1) d - 1"
      "y' * 12 + (m' - 1) = y * 12 + (m - 1) - (if d = 1 then 1 else 0)"
    using previous_day [OF v] by blast
  have u: "utcMidnight (y, m, d) = MakeDate (MakeDay y (m - 1) d) 0"
    by (simp add: utcMidnight_def)
  have "Day ?t = MakeDay y (m - 1) d - 1"
    using Day_of_midnight_minus [OF off, of "MakeDay y (m - 1) d"] by (simp add: LocalTime_def u)
  then have "Day ?t = MakeDay y' (m' - 1) d'" using p(2) by simp
  from fields_of_day [OF p(1) this] have "YearFromTime ?t = y'" "MonthFromTime ?t = m' - 1" .
  then show ?thesis using p(3) by (simp add: getFullYear_def getMonth_def)
qed

lemma months_formula_west:
  assumes T: "dateFields (fechaObjetivoStr T) = Some (y, m, d)"
    and R: "dateFields R = Some (y', m', d')"
    and later: "\<not> notLater (y, m, d) (y', m', d')"
    and offT: "- msPerDay \<le> LocalTZA h (utcMidnight (y, m, d))" "LocalTZA h (utcMidnight (y, m, d)) < 0"
    and offR: "- msPerDay \<le> LocalTZA h (utcMidnight (y', m', d'))" "LocalTZA h (utcMidnight (y', m', d')) < 0"
  shows "calcularMesesHastaFecha h T R =
         Inr (monthsBetween (y, m, d) (y', m', d')
              - (if d = 1 then 1 else 0) + (if d' = 1 then 1 else 0))"
proof -
  have a: "getFullYear h (utcMidnight (y, m, d)) * 12 + getMonth h (utcMidnight (y, m, d))
         = y * 12 + (m - 1) - (if d = 1 then 1 else 0)"
    by (rule getters_west [OF dateFields_validDate [OF T] offT])
  have b: "getFullYear h (utcMidnight (y', m', d')) * 12 + getMonth h (utcMidnight (y', m', d'))
         = y' * 12 + (m' - 1) - (if d' = 1 then 1 else 0)"
    by (rule getters_west [OF dateFields_validDate [OF R] offR])
  have "(getFullYear h (utcMidnight (y, m, d)) - getFullYear h (utcMidnight (y', m', d'))) * 12
        + (getMonth h (utcMidnight (y, m, d)) - getMonth h (utcMidnight (y', m', d')))
        = (y * 12 + (m - 1) - (if d = 1 then 1 else 0))
          - (y' * 12 + (m' - 1) - (if d' = 1 then 1 else 0))"
    unfolding a [symmetric] b [symmetric] by (simp add: algebra_simps)
  then show ?thesis
    unfolding calcular_on_dates [OF T R] using later
    by (simp add: monthsBetween_def algebra_simps)
qed

lemma dateFields_examples:
  "dateFields ''2021-03-01'' = Some (2021, 3, 1)"
  "dateFields ''2022-05-01'' = Some (2022, 5, 1)"
  "dateFields (fechaObjetivoStr ''2022-05-01'') = Some (2022, 5, 1)"
  "dateFields (fechaObjetivoStr ''2021-03-01'') = Some (2021, 3, 1)"
  "dateFields LAST_DATA_DATE = Some (2021, 3, 1)"
  by code_simp+

text \<open>
  The example of the specification, reference 2021-03-01 and target 2022-05-01, gives 14
  in every time zone whose offset has one sign at both dates: both dates are the first
  of a month, and behind UTC both fall back to the month before.
\<close>

lemma example_fourteen_months:
  assumes "(0 \<le> LocalTZA h (utcMidnight (2022, 5, 1))
             \<and> LocalTZA h (utcMidnight (2022, 5, 1)) < msPerDay
             \<and> 0 \<le> LocalTZA h (utcMidnight (2021, 3, 1))
             \<and> LocalTZA h (utcMidnight (2021, 3, 1)) < msPerDay)
         \<or> (- msPerDay \<le> LocalTZA h (utcMidnight (2022, 5, 1))
             \<and> LocalTZA h (utcMidnight (2022, 5, 1)) < 0
             \<and> - msPerDay \<le> LocalTZA h (utcMidnight (2021, 3, 1))
             \<and> LocalTZA h (utcMidnight (2021, 3, 1)) < 0)"
  shows "calcularMesesHastaFecha h ''2022-05-01'' ''2021-03-01'' = Inr 14"
proof -
  note T = dateFields_examples(3) and R = dateFields_examples(1)
  have later: "\<not> notLater (2022, 5, 1) (2021, 3, 1)" by (simp add: notLater_def)
  from assms show ?thesis
  proof
    assume "0 \<le> LocalTZA h (utcMidnight (2022, 5, 1))
             \<and> LocalTZA h (utcMidnight (2022, 5, 1)) < msPerDay
             \<and> 0 \<le> LocalTZA h (utcMidnight (2021, 3, 1))
             \<and> LocalTZA h (utcMidnight (2021, 3, 1)) < msPerDay"
    then show ?thesis
      using months_formula_east [OF T R later, of h] by (simp add: monthsBetween_def)
  next
    assume "- msPerDay \<le> LocalTZA h (utcMidnight (2022, 5, 1))
             \<and> LocalTZA h (utcMidnight (2022, 5, 1)) < 0
             \<and> - msPerDay \<le> LocalTZA h (utcMidnight (2021, 3, 1))
             \<and> LocalTZA h (utcMidnight (2021, 3, 1)) < 0"
    then show ?thesis
      using months_formula_west [OF T R later, of h] by (simp add: monthsBetween_def)
  qed
qed

text \<open>
  Where the offset changes sign between the two dates the example does not give 14. In
  the Azores the reference 2021-03-01 is in winter time, one hour behind UTC, and is read
  as February; the target 2022-05-01 is in summer time, on UTC, and is read as May.
\<close>

lemma example_in_the_azores:
  "calcularMesesHastaFecha hostAzores ''2022-05-01'' ''2021-03-01'' = Inr 15"
  by code_simp

text \<open>
  C1. For valid dates with the target strictly after the reference,
  \<^verbatim>\<open>calcularMesesHastaFecha\<close> is to return the difference of the years times 12 plus the
  difference of the months. The function builds both dates at midnight UTC and then
  reads them with \<^verbatim>\<open>getFullYear\<close> and \<^verbatim>\<open>getMonth\<close>, which answer in local time. East
  of Greenwich and on UTC the claim holds (\<open>months_formula_east\<close>). Behind UTC midnight
  UTC is the evening before, a first of the month falls back to the month before, and
  the result is off by one whenever only one of the two dates is a first of the month
  (\<open>months_formula_west\<close>). In Bogota, target 2022-05-02 and reference 2021-03-01:
  the claim gives 14, the function returns 15.
\<close>

theorem months_behind_utc:
  "dateFields ''2022-05-02'' = Some (2022, 5, 2)
   \<and> dateFields ''2021-03-01'' = Some (2021, 3, 1)
   \<and> \<not> notLater (2022, 5, 2) (2021, 3, 1)
   \<and> monthsBetween (2022, 5, 2) (2021, 3, 1) = 14
   \<and> calcularMesesHastaFecha hostBogota ''2022-05-02'' ''2021-03-01'' = Inr 15"
  by code_simp

text \<open>
  A target in the month of the reference date, on a later day: east of Greenwich and on
  UTC the function returns 0.
\<close>

lemma same_month_east:
  assumes T: "dateFields T = Some (2021, 3, d)" and d: "2 \<le> d"
    and offT: "0 \<le> LocalTZA h (utcMidnight (2021, 3, d))"
      "LocalTZA h (utcMidnight (2021, 3, d)) < msPerDay"
    and offR: "0 \<le> LocalTZA h (utcMidnight (2021, 3, 1))"
      "LocalTZA h (utcMidnight (2021, 3, 1)) < msPerDay"
  shows "calcularMesesHastaFecha h T LAST_DATA_DATE = Inr 0"
proof -
  have T': "dateFields (fechaObjetivoStr T) = Some (2021, 3, d)"
    using T fechaObjetivoStr_date [OF dateFields_length [OF T]] by simp
  have later: "\<not> notLater (2021, 3, d) (2021, 3, 1)" using d by (simp add: notLater_def)
  show ?thesis
    using months_formula_east [OF T' dateFields_examples(5) later offT offR]
    by (simp add: monthsBetween_def)
qed

text \<open>
  C10. A target date in the month of the reference date, on a later day (target
  2021-03-15, reference 2021-03-01), is to raise no error and return 0, and the
  submission to send \<open>horizonte_meses = 0\<close>. On UTC and east of it this is what happens
  (\<open>same_month_east\<close>). Behind UTC the local month of the reference date is February
  and that of the target is March: in Bogota the function returns 1 and the request
  carries \<open>horizonte_meses = 1\<close>. The defect is the one of C1.
\<close>

theorem same_month_behind_utc:
  "dateFields ''2021-03-15'' = Some (2021, 3, 15)
   \<and> calcularMesesHastaFecha hostBogota ''2021-03-15'' LAST_DATA_DATE = Inr 1
   \<and> map (\<lambda>r. horizonte_meses (body r))
        (snd (snd (submitListener hostBogota
           \<lparr>horizonte_value = [], escenario_value = ''moderado'', nivelUsuario_value = [],
            fechaObjetivo_value = ''2021-03-15''\<rparr> emptyPage)))
      = [Finite 1]"
  by code_simp

text \<open>
  C2 as stated: the function is to fail with the error of a target that is not in the
  future whenever the target is not later than the reference with the day of the month
  left out. It does not: the comparison is on the time values, day included. Target
  2021-03-15 is in the month of the reference 2021-03-01, and the function returns 0.
\<close>

theorem same_month_later_day_returns:
  "dateFields ''2021-03-15'' = Some (2021, 3, 15)
   \<and> dateFields ''2021-03-01'' = Some (2021, 3, 1)
   \<and> notLaterMonth (2021, 3, 15) (2021, 3, 1)
   \<and> calcularMesesHastaFecha hostUTC ''2021-03-15'' ''2021-03-01'' = Inr 0"
  by code_simp

text \<open>
  C2, amended. For valid dates, whenever the target is not later than the reference as a
  calendar date, the day of the month included (so also when the two are the same
  date), \<^verbatim>\<open>calcularMesesHastaFecha\<close> fails with the error of a target that is not in
  the future, in every time zone. The target is read after a year-month shorthand has
  been completed to the first of the month.
\<close>

theorem non_future_target:
  assumes "dateFields (fechaObjetivoStr T) = Some a" and "dateFields R = Some b"
    and "notLater a b"
  shows "calcularMesesHastaFecha h T R = Inl (Error NonFutureTarget (msgNoPosterior T))"
  unfolding calcular_on_dates [OF assms(1,2)] using assms(3) by simp

theorem non_future_target_witness:
  "dateFields (fechaObjetivoStr ''2021-03-01'') = Some (2021, 3, 1)
   \<and> dateFields ''2021-03-01'' = Some (2021, 3, 1)
   \<and> notLater (2021, 3, 1) (2021, 3, 1)
   \<and> calcularMesesHastaFecha hostUTC ''2021-03-01'' ''2021-03-01''
       = Inl (Error NonFutureTarget (msgNoPosterior ''2021-03-01''))"
proof -
  note a = dateFields_examples(4) and b = dateFields_examples(1)
  have c: "notLater (2021, 3, 1) (2021, 3, 1)" by (simp add: notLater_def)
  show ?thesis using non_future_target [OF a b c, of hostUTC] a b c by simp
qed

text \<open>And only then: a target later than the reference gets a month count.\<close>

lemma future_target:
  assumes "dateFields (fechaObjetivoStr T) = Some a" and "dateFields R = Some b"
    and "\<not> notLater a b"
  shows "\<exists>n. calcularMesesHastaFecha h T R = Inr n"
  unfolding calcular_on_dates [OF assms(1,2)] using assms(3) by simp

lemma non_future_branch:
  assumes "calcularMesesHastaFecha h T R = Inl (Error NonFutureTarget m)"
  shows "m = msgNoPosterior T"
  using assms
  by (simp add: calcularMesesHastaFecha_def Let_def split: option.splits if_splits)

lemma msgNoPosterior_includes:
  "includes_js (msgNoPosterior T) T" "includes_js (msgNoPosterior T) ''marzo 2021''"
proof -
  let ?p = "''La fecha objetivo (''"
  let ?q = "'') debe ser posterior a la '' @ [CHR 0xC3, CHR 0xBA] @ ''ltima fecha disponible (''"
  have "msgNoPosterior T = ?p @ T @ (?q @ ''marzo 2021).'')"
    by (simp add: msgNoPosterior_def)
  then show "includes_js (msgNoPosterior T) T"
    using includes_js_append [of ?p T] by simp
  have "msgNoPosterior T = (?p @ T @ ?q) @ ''marzo 2021'' @ '').''"
    by (simp add: msgNoPosterior_def)
  then show "includes_js (msgNoPosterior T) ''marzo 2021''"
    using includes_js_append [of "?p @ T @ ?q" "''marzo 2021''" "'').''"] by simp
qed

text \<open>
  C4 as stated: the message of the error is to hold the rejected target and a readable
  form of the reference date that was passed in. The text of the message is fixed but
  for the target: it names March 2021 whatever the reference is. With reference
  2020-01-01 and target 2019-06-01 the message names neither 2020 nor January.
\<close>

theorem message_names_march_2021:
  "calcularMesesHastaFecha hostUTC ''2019-06-01'' ''2020-01-01''
     = Inl (Error NonFutureTarget
         (''La fecha objetivo (2019-06-01) debe ser posterior a la '' @ [CHR 0xC3, CHR 0xBA]
           @ ''ltima fecha disponible (marzo 2021).''))
   \<and> \<not> includes_js (msgNoPosterior ''2019-06-01'') ''2020''
   \<and> \<not> includes_js (msgNoPosterior ''2019-06-01'') ''enero''"
  by code_simp

text \<open>
  C4, amended. Whenever \<^verbatim>\<open>calcularMesesHastaFecha\<close> raises the error of a target that
  is not in the future, the message holds the target string as it was passed and the
  words \<^verbatim>\<open>marzo 2021\<close>: the readable form of \<^verbatim>\<open>LAST_DATA_DATE\<close>, the one reference
  date the script passes, and not a form of the argument.
\<close>

theorem non_future_message:
  assumes "calcularMesesHastaFecha h T R = Inl (Error NonFutureTarget m)"
  shows "m = msgNoPosterior T \<and> includes_js m T \<and> includes_js m ''marzo 2021''"
  using non_future_branch [OF assms] msgNoPosterior_includes [of T] by simp

theorem non_future_message_witness:
  "calcularMesesHastaFecha hostUTC ''2021-02-01'' LAST_DATA_DATE
     = Inl (Error NonFutureTarget (msgNoPosterior ''2021-02-01''))
   \<and> includes_js (msgNoPosterior ''2021-02-01'') ''2021-02-01''
   \<and> includes_js (msgNoPosterior ''2021-02-01'') ''marzo 2021''"
proof -
  have e: "calcularMesesHastaFecha hostUTC ''2021-02-01'' LAST_DATA_DATE
     = Inl (Error NonFutureTarget (msgNoPosterior ''2021-02-01''))"
    by code_simp
  show ?thesis using non_future_message [OF e] e by simp
qed

lemma fechaObjetivoStr_shorthand:
  assumes "includes_js s ''-''" "length s = 7"
  shows "fechaObjetivoStr s = s @ ''-01''" "fechaObjetivoStr (s @ ''-01'') = s @ ''-01''"
  using assms by (simp_all add: fechaObjetivoStr_def)

text \<open>
  C5 as stated: the shorthand is to have exactly the outcome of the full date, the same
  month count or the same error. The message of the error of a target that is not in the
  future quotes the target as it was passed. Against the reference 2021-03-01 the
  shorthand \<^verbatim>\<open>2021-03\<close> fails with a message that names \<^verbatim>\<open>2021-03\<close> and the date
  \<^verbatim>\<open>2021-03-01\<close> with one that names \<^verbatim>\<open>2021-03-01\<close>: two errors of one kind, and
  not the same error.
\<close>

theorem shorthand_quotes_the_argument:
  "includes_js ''2021-03'' ''-'' \<and> length ''2021-03'' = 7
   \<and> calcularMesesHastaFecha hostUTC ''2021-03'' ''2021-03-01''
       = Inl (Error NonFutureTarget
           (''La fecha objetivo (2021-03) debe ser posterior a la '' @ [CHR 0xC3, CHR 0xBA]
             @ ''ltima fecha disponible (marzo 2021).''))
   \<and> calcularMesesHastaFecha hostUTC (''2021-03'' @ ''-01'') ''2021-03-01''
       = Inl (Error NonFutureTarget
           (''La fecha objetivo (2021-03-01) debe ser posterior a la '' @ [CHR 0xC3, CHR 0xBA]
             @ ''ltima fecha disponible (marzo 2021).''))
   \<and> calcularMesesHastaFecha hostUTC ''2021-03'' ''2021-03-01''
       \<noteq> calcularMesesHastaFecha hostUTC (''2021-03'' @ ''-01'') ''2021-03-01''"
  by code_simp

text \<open>
  C5, amended. A year-month shorthand \<^verbatim>\<open>YYYY-MM\<close> (any string of seven characters with
  a hyphen in it, which is the test the function makes) has the result of the same
  string with \<^verbatim>\<open>-01\<close> appended, for every reference date and in every time zone, but
  for one thing: the message of the error of a target that is not in the future quotes
  the target as it was passed, the shorthand in the one and the full date in the other.
  So the month count is the same, the error of a date that is not valid is the same,
  and in every case the outcome is: the same month count, or an error of the same kind.
\<close>

theorem shorthand_same_but_quotation:
  assumes "includes_js s ''-''" and "length s = 7"
  shows "calcularMesesHastaFecha h s R =
           map_sum
             (\<lambda>e. if kind e = NonFutureTarget then Error NonFutureTarget (msgNoPosterior s)
                  else e)
             id (calcularMesesHastaFecha h (s @ ''-01'') R)
         \<and> outcome (calcularMesesHastaFecha h s R)
           = outcome (calcularMesesHastaFecha h (s @ ''-01'') R)"
  unfolding calcularMesesHastaFecha_def fechaObjetivoStr_shorthand [OF assms]
  by (simp add: outcome_def Let_def split: option.splits)

theorem shorthand_same_but_quotation_witness:
  "includes_js ''2022-05'' ''-'' \<and> length ''2022-05'' = 7
   \<and> calcularMesesHastaFecha hostUTC ''2022-05'' ''2021-03-01'' = Inr 14
   \<and> calcularMesesHastaFecha hostUTC (''2022-05'' @ ''-01'') ''2021-03-01'' = Inr 14
   \<and> includes_js ''2021-03'' ''-'' \<and> length ''2021-03'' = 7
   \<and> calcularMesesHastaFecha hostUTC ''2021-03'' ''2021-03-01''
       = Inl (Error NonFutureTarget (msgNoPosterior ''2021-03''))
   \<and> calcularMesesHastaFecha hostUTC (''2021-03'' @ ''-01'') ''2021-03-01''
       = Inl (Error NonFutureTarget (msgNoPosterior (''2021-03'' @ ''-01'')))"
proof -
  have a: "includes_js ''2022-05'' ''-''" and b: "length ''2022-05'' = 7" by simp_all
  have c: "calcularMesesHastaFecha hostUTC (''2022-05'' @ ''-01'') ''2021-03-01'' = Inr 14"
    by code_simp
  have a': "includes_js ''2021-03'' ''-''" and b': "length ''2021-03'' = 7" by simp_all
  have c': "calcularMesesHastaFecha hostUTC (''2021-03'' @ ''-01'') ''2021-03-01''
       = Inl (Error NonFutureTarget (msgNoPosterior (''2021-03'' @ ''-01'')))"
    by code_simp
  show ?thesis
    using shorthand_same_but_quotation [OF a b, of hostUTC "''2021-03-01''"]
      shorthand_same_but_quotation [OF a' b', of hostUTC "''2021-03-01''"] a b c a' b' c'
    by simp
qed


section \<open>The submit listener\<close>

text \<open>
  \<^verbatim>\<open>mostrarResultados\<close> shows the results section first and never touches the error
  banner, whether it ends normally or throws half way.
\<close>

lemma forEachMes_keeps:
  assumes "forEachMes h ms d = (c, d')"
  shows "resultsSection_visible d' = resultsSection_visible d
       \<and> errorMessage_visible d' = errorMessage_visible d"
  using assms
proof (induction ms arbitrary: d)
  case Nil
  then show ?case by simp
next
  case (Cons entry rest)
  show ?case
  proof (cases "filaDeMes h entry")
    case (Inl e)
    with Cons.prems show ?thesis by simp
  next
    case (Inr row)
    with Cons.prems
    have "forEachMes h rest (d\<lparr>prediccionTbody_rows := prediccionTbody_rows d @ [row]\<rparr>) = (c, d')"
      by simp
    from Cons.IH [OF this] show ?thesis by simp
  qed
qed

lemma mostrarResultados_shows:
  assumes "mostrarResultados h j d = (c, d')"
  shows "resultsSection_visible d' \<and> errorMessage_visible d' = errorMessage_visible d"
proof (cases j)
  case None
  with assms show ?thesis by (auto simp: mostrarResultados_def)
next
  case (Some r)
  show ?thesis
  proof (cases "riesgo_global r")
    case (NotString s)
    with assms Some show ?thesis by (auto simp: mostrarResultados_def)
  next
    case (IsString s)
    show ?thesis
    proof (cases "toLowerCase h s = [] \<or> list_ex isAsciiWhitespace (toLowerCase h s)")
      case True
      with assms Some IsString show ?thesis by (auto simp: mostrarResultados_def)
    next
      case False
      show ?thesis
      proof (cases "prediccion_mensual r")
        case None
        with assms Some IsString False show ?thesis
          by (auto simp: mostrarResultados_def Let_def)
      next
        case (Some ms)
        with assms \<open>j = Some r\<close> IsString False
        obtain d0 where "forEachMes h ms d0 = (c, d')"
          and "resultsSection_visible d0" and "errorMessage_visible d0 = errorMessage_visible d"
          by (auto simp: mostrarResultados_def Let_def)
        with forEachMes_keeps [of h ms d0 c d'] show ?thesis by simp
      qed
    qed
  qed
qed


lemma tryBlock_Threw:
  assumes "tryBlock h f d = (Threw e, d', reqs)"
  shows "errorMessage_visible d' = errorMessage_visible d"
proof -
  from assms have "d' = d \<or> (\<exists>j c. mostrarResultados h j d = (c, d'))"
    unfolding tryBlock_def
    by (auto simp: Let_def split: sum.splits if_splits promise.splits response.splits
        error_data.splits option.splits prod.splits)
  then show ?thesis using mostrarResultados_shows by blast
qed

lemma forEachMes_not_suspended: "fst (forEachMes h ms d) \<noteq> Suspended"
  by (induction ms arbitrary: d) (auto split: sum.splits)

lemma mostrarResultados_not_suspended: "fst (mostrarResultados h j d) \<noteq> Suspended"
  using forEachMes_not_suspended
  by (auto simp: mostrarResultados_def Let_def split: option.splits string_field.splits)

text \<open>
  The listener runs to its end unless a promise it awaits never settles: the one of
  \<^verbatim>\<open>fetch\<close> or the one of \<^verbatim>\<open>response.json()\<close>.
\<close>

lemma tryBlock_Suspended:
  assumes "fst (tryBlock h f d) = Suspended"
  shows "\<exists>req. fetch h req = Pending \<or> fetch h req = Fulfilled (ResponseOk Pending)
           \<or> fetch h req = Fulfilled (ResponseNotOk Pending)"
proof (cases "horizonteMeses h f")
  case (Inl e)
  with assms show ?thesis by (simp add: tryBlock_def Let_def)
next
  case (Inr n)
  define req where "req = predictRequest
        \<lparr>horizonte_meses = n, escenario = escenario_value f,
         nivel_actual_usuario =
           (if trim (nivelUsuario_value f) = [] then None
            else Some (parseFloat h (nivelUsuario_value f)))\<rparr>"
  show ?thesis
  proof (cases "escenario_value f = []")
    case True
    with assms Inr show ?thesis by (simp add: tryBlock_def Let_def)
  next
    case False
    have t: "tryBlock h f d =
        (case fetch h req of
           Pending \<Rightarrow> (Suspended, d, [req])
         | Rejected m \<Rightarrow> (Threw (Error TransportFailure m), d, [req])
         | Fulfilled (ResponseNotOk json) \<Rightarrow>
             (case json of
                Pending \<Rightarrow> (Suspended, d, [req])
              | Rejected m \<Rightarrow> (Threw (Error TransportFailure m), d, [req])
              | Fulfilled NullData \<Rightarrow>
                  (Threw (Error PlatformException (typeErrorMessage h ''errorData.detail'')),
                   d, [req])
              | Fulfilled (Data None) \<Rightarrow>
                  (Threw (Error RemoteRejection msgErrorPrediccion), d, [req])
              | Fulfilled (Data (Some detail)) \<Rightarrow>
                  (Threw (Error RemoteRejection detail), d, [req]))
         | Fulfilled (ResponseOk json) \<Rightarrow>
             (case json of
                Pending \<Rightarrow> (Suspended, d, [req])
              | Rejected m \<Rightarrow> (Threw (Error TransportFailure m), d, [req])
              | Fulfilled resultado \<Rightarrow>
                  (case mostrarResultados h resultado d of (c, d') \<Rightarrow> (c, d', [req]))))"
      using Inr False
      by (simp add: tryBlock_def Let_def req_def split del: if_split
          split: promise.splits response.splits error_data.splits option.splits)
    show ?thesis
    proof (cases "fetch h req")
      case Pending
      then show ?thesis by blast
    next
      case (Rejected m)
      with assms t show ?thesis by simp
    next
      case (Fulfilled resp)
      show ?thesis
      proof (cases resp)
        case (ResponseOk json)
        show ?thesis
        proof (cases json)
          case Pending
          with Fulfilled ResponseOk show ?thesis by blast
        next
          case (Rejected m)
          with assms t Fulfilled ResponseOk show ?thesis by simp
        next
          case (Fulfilled j)
          with assms t \<open>fetch h req = Fulfilled resp\<close> ResponseOk
          have "fst (mostrarResultados h j d) = Suspended"
            by (simp split: prod.splits)
          with mostrarResultados_not_suspended show ?thesis by blast
        qed
      next
        case (ResponseNotOk json)
        show ?thesis
        proof (cases json)
          case Pending
          with Fulfilled ResponseNotOk show ?thesis by blast
        next
          case (Rejected m)
          with assms t Fulfilled ResponseNotOk show ?thesis by simp
        next
          case (Fulfilled e)
          with assms t \<open>fetch h req = Fulfilled resp\<close> ResponseNotOk show ?thesis
            by (simp split: error_data.splits option.splits)
        qed
      qed
    qed
  qed
qed

lemma submitListener_completes:
  "fst (submitListener h f d) = (fst (tryBlock h f (beforeTry d)) \<noteq> Suspended)"
proof -
  obtain c d' reqs where t: "tryBlock h f (beforeTry d) = (c, d', reqs)"
    by (cases "tryBlock h f (beforeTry d)") auto
  show ?thesis by (cases c) (simp_all add: submitListener_def t)
qed

text \<open>A target date that was entered decides the horizon; the manual horizon is not read.\<close>

lemma target_date_first:
  assumes "fechaObjetivo_value f \<noteq> []"
  shows "horizonteMeses h f = horizonteMeses h (f\<lparr>horizonte_value := v\<rparr>)"
  using assms by (simp add: horizonteMeses_def)

text \<open>The request that goes out when the horizon and the scenario are there.\<close>

lemma tryBlock_request:
  assumes "horizonteMeses h f = Inr n" and "escenario_value f \<noteq> []"
  shows "snd (snd (tryBlock h f d)) =
     [predictRequest
        \<lparr>horizonte_meses = n, escenario = escenario_value f,
         nivel_actual_usuario =
           (if trim (nivelUsuario_value f) = [] then None
            else Some (parseFloat h (nivelUsuario_value f)))\<rparr>]"
  using assms unfolding tryBlock_def
  by (simp add: Let_def split: promise.splits response.splits error_data.splits
      option.splits prod.splits)

text \<open>
  C3 as stated: an empty scenario is to fail as a missing scenario before the horizon is
  looked at, whatever the horizon fields hold. The script resolves the horizon first and
  tests the scenario after it: with every field empty the error is the one of a missing
  horizon.
\<close>

theorem empty_scenario_missing_horizon:
  "escenario_value sinDatos = []
   \<and> fst (tryBlock hostUTC sinDatos emptyPage) = Threw (Error MissingHorizon msgSinHorizonte)
   \<and> kind (Error MissingHorizon msgSinHorizonte) \<noteq> MissingScenario"
  by (simp add: tryBlock_def horizonteMeses_def Let_def sinDatos_def)

text \<open>
  C3, amended. The horizon is resolved before the scenario is tested. A submission with
  an empty scenario fails, before any request, with: the error of the month count when a
  target date was entered and \<^verbatim>\<open>calcularMesesHastaFecha\<close> rejects it; the error of a
  missing horizon when neither a target date nor a manual horizon was entered; and the
  error of a missing scenario otherwise.
\<close>

theorem empty_scenario:
  assumes "escenario_value f = []"
  shows "tryBlock h f d =
     (Threw
        (if fechaObjetivo_value f \<noteq> [] then
           (case calcularMesesHastaFecha h (fechaObjetivo_value f) LAST_DATA_DATE of
              Inl e \<Rightarrow> e
            | Inr n \<Rightarrow> Error MissingScenario msgSinEscenario)
         else if horizonte_value f \<noteq> [] then Error MissingScenario msgSinEscenario
         else Error MissingHorizon msgSinHorizonte),
      d, [])"
  using assms
  by (simp add: tryBlock_def horizonteMeses_def Let_def split: sum.splits)

theorem empty_scenario_witness:
  "escenario_value (sinDatos\<lparr>horizonte_value := ''12''\<rparr>) = []
   \<and> tryBlock hostUTC (sinDatos\<lparr>horizonte_value := ''12''\<rparr>) emptyPage
       = (Threw (Error MissingScenario msgSinEscenario), emptyPage, [])"
proof -
  have a: "escenario_value (sinDatos\<lparr>horizonte_value := ''12''\<rparr>) = []"
    by (simp add: sinDatos_def)
  show ?thesis
    using empty_scenario [OF a, of hostUTC emptyPage] a by (simp add: sinDatos_def)
qed

text \<open>
  C6. When the target date and the manual horizon are both empty, the submission fails
  with the error of a missing horizon, the listener shows its message, and no request
  is sent.
\<close>

theorem missing_horizon:
  assumes "fechaObjetivo_value f = []" and "horizonte_value f = []"
  shows "tryBlock h f d = (Threw (Error MissingHorizon msgSinHorizonte), d, [])
       \<and> fst (submitListener h f d)
       \<and> snd (snd (submitListener h f d)) = []
       \<and> errorMessage_visible (fst (snd (submitListener h f d)))
       \<and> errorMessage_textContent (fst (snd (submitListener h f d)))
           = crossMark @ '' '' @ msgSinHorizonte"
proof -
  have t: "tryBlock h f d = (Threw (Error MissingHorizon msgSinHorizonte), d, [])" for d
    using assms by (simp add: tryBlock_def horizonteMeses_def Let_def)
  show ?thesis
    by (simp add: t submitListener_def finallyBlock_def mostrarError_def)
qed

theorem missing_horizon_witness:
  "fechaObjetivo_value (sinDatos\<lparr>escenario_value := ''moderado''\<rparr>) = []
   \<and> horizonte_value (sinDatos\<lparr>escenario_value := ''moderado''\<rparr>) = []
   \<and> submitListener hostUTC (sinDatos\<lparr>escenario_value := ''moderado''\<rparr>) emptyPage
       = (True,
          emptyPage\<lparr>errorMessage_visible := True,
                    errorMessage_textContent := crossMark @ '' '' @ msgSinHorizonte\<rparr>,
          [])"
proof -
  let ?f = "sinDatos\<lparr>escenario_value := ''moderado''\<rparr>"
  have a: "fechaObjetivo_value ?f = []" and b: "horizonte_value ?f = []"
    by (simp_all add: sinDatos_def)
  have c: "submitListener hostUTC ?f emptyPage
       = (True,
          emptyPage\<lparr>errorMessage_visible := True,
                    errorMessage_textContent := crossMark @ '' '' @ msgSinHorizonte\<rparr>,
          [])"
    using missing_horizon [OF a b, of hostUTC "beforeTry emptyPage"]
    by (simp add: submitListener_def finallyBlock_def mostrarError_def beforeTry_def
        emptyPage_def)
  show ?thesis using missing_horizon [OF a b, of hostUTC emptyPage] a b c by simp
qed











section \<open>The rows of the table\<close>

text \<open>The digits \<^verbatim>\<open>toFixed(2)\<close> prints: all digits, with a point before the last two.\<close>

lemma isDigit_char_of: "d < 10 \<Longrightarrow> isDigit (char_of (48 + d))" for d :: nat
  by (simp add: isDigit_def)

lemma digit_value_char_of: "d < 10 \<Longrightarrow> int (of_char (char_of (48 + d))) - 48 = int d" for d :: nat
  by simp

lemma decimalDigits_digits: "list_all isDigit (decimalDigits n)"
proof (induction n rule: decimalDigits.induct)
  case (1 n)
  show ?case
  proof (cases "n < 10")
    case True
    then show ?thesis by (subst decimalDigits.simps) (simp add: isDigit_char_of)
  next
    case False
    with "1.IH" show ?thesis by (subst decimalDigits.simps) (simp add: isDigit_char_of)
  qed
qed

lemma decimalDigits_nonempty: "decimalDigits n \<noteq> []"
  by (subst decimalDigits.simps) simp

lemma digitsValue_snoc: "digitsValue (s @ [c]) = 10 * digitsValue s + (int (of_char c) - 48)"
  by (simp add: digitsValue_def)

lemma digitsValue_decimalDigits: "digitsValue (decimalDigits n) = int n"
proof (induction n rule: decimalDigits.induct)
  case (1 n)
  show ?case
  proof (cases "n < 10")
    case True
    then show ?thesis
      by (subst decimalDigits.simps) (simp add: digitsValue_def)
  next
    case False
    then have "digitsValue (decimalDigits (n div 10)) = int (n div 10)" by (rule "1.IH")
    moreover have "n mod 10 < 10" by simp
    ultimately show ?thesis using False
      by (subst decimalDigits.simps) (simp add: digitsValue_snoc digit_value_char_of zdiv_int zmod_int)
  qed
qed

lemma digitsValue_zeros: "digitsValue (replicate z CHR ''0'' @ s) = digitsValue s"
proof -
  have "foldl (\<lambda>a c. 10 * a + (int (of_char c) - 48)) 0 (replicate z CHR ''0'') = 0"
    by (induction z) simp_all
  then show ?thesis by (simp add: digitsValue_def)
qed

lemma fixedDigits2_shape:
  obtains m where "3 \<le> length m" "list_all isDigit m"
    "fixedDigits2 x = take (length m - 2) m @ ''.'' @ drop (length m - 2) m"
    "digitsValue m = int (nat \<lfloor>x * 100 + 1 / 2\<rfloor>)"
proof -
  let ?n = "nat \<lfloor>x * 100 + 1 / 2\<rfloor>"
  let ?d = "decimalDigits ?n"
  let ?m = "if length ?d \<le> 2 then replicate (3 - length ?d) CHR ''0'' @ ?d else ?d"
  have z: "isDigit CHR ''0''" by (simp add: isDigit_def)
  have "3 \<le> length ?m" by simp
  moreover have "list_all isDigit ?m"
    using decimalDigits_digits [of ?n] z by (simp add: list_all_iff)
  moreover have "fixedDigits2 x = take (length ?m - 2) ?m @ ''.'' @ drop (length ?m - 2) ?m"
    unfolding fixedDigits2_def Let_def ..
  moreover have "digitsValue ?m = int ?n"
    by (simp add: digitsValue_zeros digitsValue_decimalDigits)
  ultimately show ?thesis by (rule that)
qed

lemma isDigit_not_minus: "isDigit c \<Longrightarrow> c \<noteq> CHR ''-''"
  by (auto simp: isDigit_def)

lemma twoDecimals_intro:
  assumes a: "a \<noteq> []" "list_all isDigit a" and b: "length b = 2" "list_all isDigit b"
  shows "twoDecimals (a @ ''.'' @ b)" and "twoDecimals (''-'' @ a @ ''.'' @ b)"
proof -
  let ?t = "a @ ''.'' @ b"
  have len: "length ?t = length a + 3" using b(1) by simp
  have nth: "?t ! (length a) = CHR ''.''" by (simp add: nth_append)
  have tk: "take (length a) ?t = a" by simp
  have dr: "drop (length a + 1) ?t = b" by simp
  have "hd a \<noteq> CHR ''-''"
    using a isDigit_not_minus by (cases a) auto
  then have pre: "take 1 ?t \<noteq> ''-''" using a(1) by (cases a) auto
  have core: "4 \<le> length ?t \<and> ?t ! (length ?t - 3) = CHR ''.''
      \<and> list_all isDigit (take (length ?t - 3) ?t) \<and> list_all isDigit (drop (length ?t - 2) ?t)"
    unfolding len using a b(2) nth tk dr by (cases a) simp_all
  show "twoDecimals ?t"
    unfolding twoDecimals_def Let_def using pre core by (simp only: if_False)
  have e: "(if take 1 (''-'' @ ?t) = ''-'' then drop 1 (''-'' @ ?t) else ''-'' @ ?t) = ?t"
    by simp
  show "twoDecimals (''-'' @ ?t)"
    unfolding twoDecimals_def Let_def e using core .
qed

lemma twoDecimals_fixedDigits2: "twoDecimals (fixedDigits2 x)" "twoDecimals (''-'' @ fixedDigits2 x)"
proof -
  obtain m where m: "3 \<le> length m" "list_all isDigit m"
    and f: "fixedDigits2 x = take (length m - 2) m @ ''.'' @ drop (length m - 2) m"
    by (rule fixedDigits2_shape [of x])
  let ?a = "take (length m - 2) m" and ?b = "drop (length m - 2) m"
  have a0: "?a \<noteq> []" using m(1) by auto
  have lb: "length ?b = 2" using m(1) by simp
  have da: "list_all isDigit ?a" and db: "list_all isDigit ?b"
    using m(2) by (auto simp: list_all_iff dest: in_set_takeD in_set_dropD)
  show "twoDecimals (fixedDigits2 x)"
    unfolding f by (rule twoDecimals_intro(1) [OF a0 da lb db])
  show "twoDecimals (''-'' @ fixedDigits2 x)"
    unfolding f by (rule twoDecimals_intro(2) [OF a0 da lb db])
qed

text \<open>
  What \<^verbatim>\<open>toFixed(2)\<close> prints is the number rounded to the nearest hundredth: the digits
  read as an integer are \<open>\<lfloor>100 * x + 1 / 2\<rfloor>\<close>, which is within half a hundredth of \<open>x\<close>.
\<close>

lemma fixedDigits2_value:
  assumes "0 \<le> x"
  shows "\<exists>a b. fixedDigits2 x = a @ ''.'' @ b \<and> length b = 2
           \<and> digitsValue (a @ b) = \<lfloor>x * 100 + 1 / 2\<rfloor>"
proof -
  obtain m where m: "3 \<le> length m"
    and f: "fixedDigits2 x = take (length m - 2) m @ ''.'' @ drop (length m - 2) m"
    and v: "digitsValue m = int (nat \<lfloor>x * 100 + 1 / 2\<rfloor>)"
    by (rule fixedDigits2_shape [of x])
  have "0 \<le> \<lfloor>x * 100 + 1 / 2\<rfloor>" using assms by simp
  with v have "digitsValue (take (length m - 2) m @ drop (length m - 2) m) = \<lfloor>x * 100 + 1 / 2\<rfloor>"
    by simp
  moreover have "length (drop (length m - 2) m) = 2" using m by simp
  ultimately show ?thesis using f by blast
qed

lemma nearest_hundredth:
  fixes x :: rat
  shows "\<bar>of_int \<lfloor>x * 100 + 1 / 2\<rfloor> / 100 - x\<bar> \<le> 1 / 200"
proof -
  define n where "n = \<lfloor>x * 100 + 1 / 2\<rfloor>"
  have "of_int n \<le> x * 100 + 1 / 2" "x * 100 + 1 / 2 < of_int n + 1"
    unfolding n_def by linarith+
  then have "\<bar>of_int n / 100 - x\<bar> \<le> 1 / 200"
    unfolding abs_le_iff by linarith
  then show ?thesis by (simp only: n_def)
qed

lemma nivelEjemplo_is_the_double:
  "(2::int) ^ 52 \<le> 6949617174986097 \<and> (6949617174986097::int) < 2 ^ 53
   \<and> \<bar>nivelEjemplo - 12345 / 1000\<bar> < 1 / 2 ^ 50"
  by (simp add: nivelEjemplo_def)

lemma toFixed2_fixed:
  assumes "\<bar>r\<bar> < 10 ^ 21"
  shows "toFixed2 h (Finite r) = (if r < 0 then ''-'' else []) @ fixedDigits2 \<bar>r\<bar>"
  using assms by (simp add: toFixed2_def)

lemma toFixed2_large:
  assumes "10 ^ 21 \<le> \<bar>r\<bar>"
  shows "toFixed2 h (Finite r)
         = (if r < 0 then ''-'' else []) @ exponentialText (shortestDecimal h \<bar>r\<bar>)"
  using assms by (simp add: toFixed2_def)

lemma toFixed2_not_finite:
  "\<not> twoDecimals (toFixed2 h PlusInfinity)" "\<not> twoDecimals (toFixed2 h MinusInfinity)"
  "\<not> twoDecimals (toFixed2 h NaN)"
  by (simp_all add: toFixed2_def twoDecimals_def isDigit_def)

lemma twoDecimals_toFixed2:
  assumes "\<bar>r\<bar> < 10 ^ 21"
  shows "twoDecimals (toFixed2 h (Finite r))"
proof (cases "r < 0")
  case True
  then show ?thesis
    unfolding toFixed2_fixed [OF assms]
    using twoDecimals_fixedDigits2(2) [of "\<bar>r\<bar>"] by (simp only: if_True)
next
  case False
  then show ?thesis
    unfolding toFixed2_fixed [OF assms]
    using twoDecimals_fixedDigits2(1) [of "\<bar>r\<bar>"] by (simp only: if_False append_Nil)
qed

text \<open>
  A text of two decimals has digits, a point and a minus sign in it and nothing else;
  the exponential notation has the letter \<^verbatim>\<open>e\<close>.
\<close>

lemma twoDecimals_chars:
  assumes "twoDecimals s" and "c \<in> set s"
  shows "isDigit c \<or> c = CHR ''.'' \<or> c = CHR ''-''"
proof -
  define t where "t = (if take 1 s = ''-'' then drop 1 s else s)"
  define k where "k = length t"
  from assms(1) have k: "4 \<le> k" and p: "t ! (k - 3) = CHR ''.''"
    and a: "list_all isDigit (take (k - 3) t)" and b: "list_all isDigit (drop (k - 2) t)"
    by (simp_all add: twoDecimals_def Let_def t_def k_def)
  have "k - 3 < length t" using k by (simp add: k_def)
  then have "t = take (k - 3) t @ t ! (k - 3) # drop (Suc (k - 3)) t"
    by (rule id_take_nth_drop)
  moreover have "Suc (k - 3) = k - 2" using k by simp
  ultimately have t: "t = take (k - 3) t @ CHR ''.'' # drop (k - 2) t"
    using p by simp
  have "set t = set (take (k - 3) t) \<union> {CHR ''.''} \<union> set (drop (k - 2) t)"
    by (subst t) simp
  then have in_t: "isDigit x \<or> x = CHR ''.''" if "x \<in> set t" for x
    using that a b by (auto simp: list_all_iff)
  have "set s \<subseteq> {CHR ''-''} \<union> set t"
  proof (cases "take 1 s = ''-''")
    case True
    then have "s = ''-'' @ t"
      using append_take_drop_id [of 1 s] by (simp add: t_def)
    then have "set s = insert CHR ''-'' (set t)"
      by (metis append_Cons append_Nil list.simps(15))
    then show ?thesis by simp
  next
    case False
    then show ?thesis by (auto simp: t_def)
  qed
  with assms(2) in_t show ?thesis by auto
qed

lemma exponentialText_e: "CHR ''e'' \<in> set (exponentialText sn)"
  by (cases sn) (simp add: exponentialText_def Let_def)

lemma exponentialText_includes: "includes_js (p @ exponentialText sn) ''e+''"
proof -
  obtain s n where sn: "sn = (s, n)" by (cases sn)
  let ?m = "decimalDigits s"
  let ?a = "p @ take 1 ?m @ (if length ?m = 1 then [] else ''.'' @ drop 1 ?m)"
  have "p @ exponentialText sn = ?a @ ''e+'' @ decimalDigits (n - 1)"
    by (simp add: exponentialText_def Let_def sn)
  then show ?thesis
    using includes_js_append [of ?a "''e+''" "decimalDigits (n - 1)"] by simp
qed

lemma not_twoDecimals_exponential: "\<not> twoDecimals (p @ exponentialText sn)"
proof
  assume "twoDecimals (p @ exponentialText sn)"
  moreover have "CHR ''e'' \<in> set (p @ exponentialText sn)"
    using exponentialText_e [of sn] by simp
  ultimately have "isDigit CHR ''e'' \<or> CHR ''e'' = CHR ''.'' \<or> CHR ''e'' = CHR ''-''"
    by (rule twoDecimals_chars)
  then show False by (simp add: isDigit_def)
qed

text \<open>
  \<^verbatim>\<open>toFixed(2)\<close> prints two decimals for the finite numbers of magnitude below
  \<open>10\<^sup>2\<^sup>1\<close> and for no other value.
\<close>

lemma twoDecimals_toFixed2_iff:
  "twoDecimals (toFixed2 h x)
   = (case x of Finite r \<Rightarrow> \<bar>r\<bar> < 10 ^ 21 | PlusInfinity \<Rightarrow> False
      | MinusInfinity \<Rightarrow> False | NaN \<Rightarrow> False)"
proof (cases x)
  case (Finite r)
  show ?thesis
  proof (cases "\<bar>r\<bar> < 10 ^ 21")
    case True
    with Finite twoDecimals_toFixed2 [OF True, of h] show ?thesis by simp
  next
    case False
    then have "10 ^ 21 \<le> \<bar>r\<bar>" by simp
    from toFixed2_large [OF this, of h]
      not_twoDecimals_exponential [of "if r < 0 then ''-'' else []" "shortestDecimal h \<bar>r\<bar>"]
    have "\<not> twoDecimals (toFixed2 h (Finite r))" by simp
    with Finite False show ?thesis by simp
  qed
next
  case PlusInfinity
  with toFixed2_not_finite(1) [of h] show ?thesis by simp
next
  case MinusInfinity
  with toFixed2_not_finite(2) [of h] show ?thesis by simp
next
  case NaN
  with toFixed2_not_finite(3) [of h] show ?thesis by simp
qed

text \<open>What \<^verbatim>\<open>toFixed(2)\<close> prints has no character that the HTML parser reads as markup.\<close>

lemma plainText_append: "plainText (a @ b) = (plainText a \<and> plainText b)"
  by (simp add: plainText_def)

lemma plainText_digits: "list_all isDigit s \<Longrightarrow> plainText s"
  by (auto simp: plainText_def list_all_iff isDigit_def)

lemma plainText_Cons:
  "plainText (c # s) = (c \<notin> {CHR ''<'', CHR ''&'', CHR 0x00, CHR 0x0D} \<and> plainText s)"
  by (simp add: plainText_def)

lemma plainText_decimalDigits:
  "plainText (decimalDigits n)" "plainText (take k (decimalDigits n))"
  "plainText (drop k (decimalDigits n))"
proof -
  have "list_all isDigit (take k (decimalDigits n))" "list_all isDigit (drop k (decimalDigits n))"
    using decimalDigits_digits [of n]
    by (auto simp: list_all_iff dest: in_set_takeD in_set_dropD)
  then show "plainText (take k (decimalDigits n))" "plainText (drop k (decimalDigits n))"
    by (simp_all add: plainText_digits)
  show "plainText (decimalDigits n)"
    using decimalDigits_digits [of n] by (rule plainText_digits)
qed

lemma plainText_fixedDigits2: "plainText (fixedDigits2 x)"
proof -
  obtain m where m: "list_all isDigit m"
    and f: "fixedDigits2 x = take (length m - 2) m @ ''.'' @ drop (length m - 2) m"
    by (rule fixedDigits2_shape [of x])
  have "list_all isDigit (take (length m - 2) m)" "list_all isDigit (drop (length m - 2) m)"
    using m by (auto simp: list_all_iff dest: in_set_takeD in_set_dropD)
  then have "plainText (take (length m - 2) m)" "plainText (drop (length m - 2) m)"
    by (simp_all add: plainText_digits)
  moreover have "plainText ''.''" by (simp add: plainText_def)
  ultimately show ?thesis unfolding f by (simp only: plainText_append simp_thms)
qed

lemma plainText_exponentialText: "plainText (exponentialText sn)"
proof -
  obtain s n where sn: "sn = (s, n)" by (cases sn)
  have "plainText []" by (simp add: plainText_def)
  then show ?thesis
    by (simp add: exponentialText_def Let_def sn plainText_append plainText_Cons
        plainText_decimalDigits)
qed

lemma plainText_toFixed2: "plainText (toFixed2 h x)"
proof (cases x)
  case (Finite r)
  have "plainText ''-''" "plainText []" by (simp_all add: plainText_def)
  then show ?thesis
    by (simp add: Finite toFixed2_def plainText_append plainText_fixedDigits2
        plainText_exponentialText)
qed (simp_all add: toFixed2_def plainText_def)

text \<open>
  The tokens of a text: a tag runs to its greater-than sign, and text to the next
  less-than sign.
\<close>

lemma tokens_tag:
  assumes "CHR ''>'' \<notin> set t"
  shows "tokens (CHR ''<'' # t @ CHR ''>'' # r) = Tag t # tokens r"
proof -
  have "takeWhile (\<lambda>x. x \<noteq> CHR ''>'') (t @ CHR ''>'' # r) = t"
    using assms by (auto simp: takeWhile_tail)
  moreover have "dropWhile (\<lambda>x. x \<noteq> CHR ''>'') (t @ CHR ''>'' # r) = CHR ''>'' # r"
    using assms by (auto simp: dropWhile_append3)
  ultimately show ?thesis by simp
qed

lemma tokens_chars:
  assumes "x \<noteq> []" and "CHR ''<'' \<notin> set x"
  shows "tokens (x @ CHR ''<'' # r) = Chars x # tokens (CHR ''<'' # r)"
proof -
  from assms obtain c cs where x: "x = c # cs" and c: "c \<noteq> CHR ''<''"
    and cs: "CHR ''<'' \<notin> set cs"
    by (cases x) auto
  have "takeWhile (\<lambda>x. x \<noteq> CHR ''<'') (cs @ CHR ''<'' # r) = cs"
    using cs by (auto simp: takeWhile_tail)
  moreover have "dropWhile (\<lambda>x. x \<noteq> CHR ''<'') (cs @ CHR ''<'' # r) = CHR ''<'' # r"
    using cs by (auto simp: dropWhile_append3)
  ultimately show ?thesis using c by (simp add: x)
qed

lemma tokens_chars_end:
  assumes "x \<noteq> []" and "CHR ''<'' \<notin> set x"
  shows "tokens x = [Chars x]"
proof -
  from assms obtain c cs where x: "x = c # cs" and c: "c \<noteq> CHR ''<''"
    and cs: "CHR ''<'' \<notin> set cs"
    by (cases x) auto
  have tw: "takeWhile (\<lambda>x. x \<noteq> CHR ''<'') cs = cs"
    using cs by auto
  have dw: "dropWhile (\<lambda>x. x \<noteq> CHR ''<'') cs = []"
    using cs by auto
  show ?thesis by (simp add: x c tw dw)
qed

lemma tokens_cell:
  assumes "CHR ''>'' \<notin> set t" and "CHR ''<'' \<notin> set x"
  shows "tokens (CHR ''<'' # t @ CHR ''>'' # x @ ''</td>'' @ r)
         = Tag t # (if x = [] then [] else [Chars x]) @ Tag ''/td'' # tokens r"
proof -
  have e: "tokens (CHR ''<'' # ''/td'' @ CHR ''>'' # r) = Tag ''/td'' # tokens r"
    by (rule tokens_tag) simp
  have "tokens (x @ CHR ''<'' # ''/td'' @ CHR ''>'' # r)
        = (if x = [] then [] else [Chars x]) @ Tag ''/td'' # tokens r"
  proof (cases "x = []")
    case True
    show ?thesis by (simp only: True append_Nil if_True simp_thms e)
  next
    case False
    from tokens_chars [OF False assms(2), of "''/td'' @ CHR ''>'' # r"] e False
    show ?thesis by (simp only: if_False append_Cons append_Nil)
  qed
  moreover have "x @ ''</td>'' @ r = x @ CHR ''<'' # ''/td'' @ CHR ''>'' # r" by simp
  ultimately show ?thesis
    using tokens_tag [OF assms(1), of "x @ ''</td>'' @ r"] by (simp only:)
qed

text \<open>
  One cell of the template: white space, a start tag, a text with no markup in it and
  the end tag give one cell with that text, and the cells of what follows.
\<close>

lemma plainText_no_lt: "plainText x \<Longrightarrow> CHR ''<'' \<notin> set x"
  by (auto simp: plainText_def list_all_iff)

lemma cellsOf_cell:
  assumes w: "w \<noteq> []" "list_all isAsciiWhitespace w"
    and t: "CHR ''>'' \<notin> set t" "openTag t = Some cls" and x: "plainText x"
  shows "cellsOf (tokens (w @ CHR ''<'' # t @ CHR ''>'' # x @ ''</td>'' @ r))
         = map_option (\<lambda>cs. \<lparr>clase = cls, contenido = x\<rparr> # cs) (cellsOf (tokens r))"
proof -
  have "CHR ''<'' \<notin> set w"
    using w(2) by (auto simp: list_all_iff isAsciiWhitespace_def)
  from tokens_chars [OF w(1) this]
  have "tokens (w @ CHR ''<'' # t @ CHR ''>'' # x @ ''</td>'' @ r)
        = Chars w # tokens (CHR ''<'' # t @ CHR ''>'' # x @ ''</td>'' @ r)" .
  also have "\<dots> = Chars w # Tag t # (if x = [] then [] else [Chars x]) @ Tag ''/td'' # tokens r"
    by (simp only: tokens_cell [OF t(1) plainText_no_lt [OF x]])
  finally show ?thesis
    using w(2) t(2) x by simp
qed

lemma sangria_space: "sangria n \<noteq> []" "list_all isAsciiWhitespace (sangria n)"
  by (simp_all add: sangria_def isAsciiWhitespace_def list_all_iff)

lemma celdas_td:
  assumes "plainText x"
  shows "cellsOf (tokens (sangria n @ td x @ r))
         = map_option (\<lambda>cs. \<lparr>clase = None, contenido = x\<rparr> # cs) (cellsOf (tokens r))"
proof -
  have "openTag ''td'' = Some None" by (simp add: openTag_def)
  moreover have "CHR ''>'' \<notin> set ''td''" by simp
  ultimately show ?thesis
    using cellsOf_cell [OF sangria_space, of "''td''" None x n r] assms
    by (simp add: td_def)
qed

lemma openTag_class:
  assumes "list_all (\<lambda>c. c \<notin> {CHR 0x22, CHR ''&'', CHR 0x00, CHR 0x0D}) c"
  shows "openTag (''td class='' @ [CHR 0x22] @ c @ [CHR 0x22]) = Some (Some c)"
  using assms by (simp add: openTag_def)

lemma celdas_tdClass:
  assumes "list_all (\<lambda>c. c \<notin> {CHR 0x22, CHR ''&'', CHR 0x00, CHR 0x0D}) c"
    and "CHR ''>'' \<notin> set c" and "plainText x"
  shows "cellsOf (tokens (sangria n @ tdClass c x @ r))
         = map_option (\<lambda>cs. \<lparr>clase = Some c, contenido = x\<rparr> # cs) (cellsOf (tokens r))"
proof -
  let ?t = "''td class='' @ [CHR 0x22] @ c @ [CHR 0x22]"
  have "CHR ''>'' \<notin> set ?t" using assms(2) by simp
  from cellsOf_cell [OF sangria_space this openTag_class [OF assms(1)] assms(3), of n r]
  show ?thesis by (simp add: tdClass_def)
qed

lemma celdas_end: "cellsOf (tokens (sangria n)) = Some []"
proof -
  have "CHR ''<'' \<notin> set (sangria n)"
    using sangria_space(2) [of n] by (auto simp: list_all_iff isAsciiWhitespace_def)
  from tokens_chars_end [OF sangria_space(1) this] sangria_space(2) [of n]
  show ?thesis by simp
qed

lemma clases_ok:
  "list_all (\<lambda>c. c \<notin> {CHR 0x22, CHR ''&'', CHR 0x00, CHR 0x0D}) ''situacion-sequia''"
  "list_all (\<lambda>c. c \<notin> {CHR 0x22, CHR ''&'', CHR 0x00, CHR 0x0D}) ''situacion-bajo''"
  "list_all (\<lambda>c. c \<notin> {CHR 0x22, CHR ''&'', CHR 0x00, CHR 0x0D}) ''situacion-normal''"
  "list_all (\<lambda>c. c \<notin> {CHR 0x22, CHR ''&'', CHR 0x00, CHR 0x0D}) ''boolean-true''"
  "list_all (\<lambda>c. c \<notin> {CHR 0x22, CHR ''&'', CHR 0x00, CHR 0x0D}) ''boolean-false''"
  "CHR ''>'' \<notin> set ''situacion-sequia''" "CHR ''>'' \<notin> set ''situacion-bajo''"
  "CHR ''>'' \<notin> set ''situacion-normal''" "CHR ''>'' \<notin> set ''boolean-true''"
  "CHR ''>'' \<notin> set ''boolean-false''"
  "plainText textoSi" "plainText textoNo"
  by (simp_all add: plainText_def textoSi_def textoNo_def)

text \<open>The cells of the row of an entry whose texts have no markup in them.\<close>

lemma celdas_fila:
  assumes "plainText a" and "plainText b" and "plainText c"
    and "k3 \<in> {''situacion-sequia'', ''situacion-bajo'', ''situacion-normal''}"
    and "k4 \<in> {''boolean-true'', ''boolean-false''}"
    and "k5 \<in> {''boolean-true'', ''boolean-false''}"
    and "s4 \<in> {textoSi, textoNo}" and "s5 \<in> {textoSi, textoNo}"
  shows "celdas (sangria 12 @ td a @ sangria 12 @ td b @ sangria 12 @ tdClass k3 c
                 @ sangria 12 @ tdClass k4 s4 @ sangria 12 @ tdClass k5 s5 @ sangria 8)
         = Some [\<lparr>clase = None, contenido = a\<rparr>, \<lparr>clase = None, contenido = b\<rparr>,
                 \<lparr>clase = Some k3, contenido = c\<rparr>, \<lparr>clase = Some k4, contenido = s4\<rparr>,
                 \<lparr>clase = Some k5, contenido = s5\<rparr>]"
proof -
  have k3: "list_all (\<lambda>c. c \<notin> {CHR 0x22, CHR ''&'', CHR 0x00, CHR 0x0D}) k3" "CHR ''>'' \<notin> set k3"
    using assms(4) clases_ok by auto
  have k4: "list_all (\<lambda>c. c \<notin> {CHR 0x22, CHR ''&'', CHR 0x00, CHR 0x0D}) k4" "CHR ''>'' \<notin> set k4"
    using assms(5) clases_ok by auto
  have k5: "list_all (\<lambda>c. c \<notin> {CHR 0x22, CHR ''&'', CHR 0x00, CHR 0x0D}) k5" "CHR ''>'' \<notin> set k5"
    using assms(6) clases_ok by auto
  have s4: "plainText s4" and s5: "plainText s5"
    using assms(7,8) clases_ok by auto
  show ?thesis
    unfolding celdas_def
    by (simp only: celdas_td [OF assms(1)] celdas_td [OF assms(2)]
        celdas_tdClass [OF k3 assms(3)] celdas_tdClass [OF k4 s4] celdas_tdClass [OF k5 s5]
        celdas_end option.map)
qed

text \<open>The rows of the table after a \<^verbatim>\<open>forEach\<close> that ended normally.\<close>

lemma forEachMes_rows:
  assumes "forEachMes h ms d = (Done, d')"
  shows "map Inr (prediccionTbody_rows d') = map Inr (prediccionTbody_rows d) @ map (filaDeMes h) ms"
  using assms
proof (induction ms arbitrary: d)
  case Nil
  then show ?case by simp
next
  case (Cons entry rest)
  show ?case
  proof (cases "filaDeMes h entry")
    case (Inl e)
    with Cons.prems show ?thesis by simp
  next
    case (Inr row)
    with Cons.prems
    have "forEachMes h rest (d\<lparr>prediccionTbody_rows := prediccionTbody_rows d @ [row]\<rparr>) = (Done, d')"
      by simp
    from Cons.IH [OF this] Inr show ?thesis by simp
  qed
qed

text \<open>
  C9 as stated: every entry that is rendered is to show its level with two decimals, in
  a row with the situation, the level and the two flags as its cells. \<^verbatim>\<open>toFixed\<close>
  prints a value that is not finite by its name, and \<^verbatim>\<open>JSON.parse\<close> reads the number
  \<^verbatim>\<open>1e999\<close> as \<^verbatim>\<open>Infinity\<close>: the row of such an entry shows \<^verbatim>\<open>Infinity\<close>. It
  prints a magnitude of \<open>10\<^sup>2\<^sup>1\<close> or more in exponential notation: the row of the level
  \<open>10\<^sup>2\<^sup>1\<close> shows \<^verbatim>\<open>1e+21\<close>. And the fields are written into \<^verbatim>\<open>innerHTML\<close> as they
  are: the row of an entry whose date is the text \<^verbatim>\<open></td><td>x\<close> has six cells, an
  empty one, one with \<^verbatim>\<open>x\<close>, and the level in the third.
\<close>

theorem rows_not_as_stated:
  "textosDeFila hostUTC (mesEjemplo\<lparr>nivel := Some PlusInfinity\<rparr>)
     = Some [''2022-05'', ''Infinity'', ''Alerta'', textoSi, textoNo]
   \<and> \<not> twoDecimals ''Infinity''
   \<and> textosDeFila hostUTC (mesEjemplo\<lparr>nivel := Some (Finite (10 ^ 21))\<rparr>)
     = Some [''2022-05'', ''1e+21'', ''Alerta'', textoSi, textoNo]
   \<and> \<not> twoDecimals ''1e+21''
   \<and> textosDeFila hostUTC (mesEjemplo\<lparr>fecha := ''</td><td>x''\<rparr>)
     = Some [[], ''x'', ''12.35'', ''Alerta'', textoSi, textoNo]"
proof -
  have s: "stripZeros (10 ^ 21) = 1"
    by (simp add: stripZeros.simps)
  have a: "toFixed2 hostUTC (Finite (10 ^ 21)) = ''1e+21''"
    by (simp add: toFixed2_def hostUTC_def allDigits_def exponentialText_def s
        decimalDigits.simps) code_simp
  have f: "filaDeMes hostUTC (Some (mesEjemplo\<lparr>nivel := Some (Finite (10 ^ 21))\<rparr>))
     = Inr (sangria 12 @ td ''2022-05'' @ sangria 12 @ td ''1e+21''
            @ sangria 12 @ tdClass ''situacion-sequia'' ''Alerta''
            @ sangria 12 @ tdClass ''boolean-true'' textoSi
            @ sangria 12 @ tdClass ''boolean-false'' textoNo @ sangria 8)"
    using a by (simp add: filaDeMes_def mesEjemplo_def)
  have g: "map_option (map contenido)
       (celdas (sangria 12 @ td ''2022-05'' @ sangria 12 @ td ''1e+21''
            @ sangria 12 @ tdClass ''situacion-sequia'' ''Alerta''
            @ sangria 12 @ tdClass ''boolean-true'' textoSi
            @ sangria 12 @ tdClass ''boolean-false'' textoNo @ sangria 8))
     = Some [''2022-05'', ''1e+21'', ''Alerta'', textoSi, textoNo]"
    by code_simp
  have b: "textosDeFila hostUTC (mesEjemplo\<lparr>nivel := Some (Finite (10 ^ 21))\<rparr>)
     = Some [''2022-05'', ''1e+21'', ''Alerta'', textoSi, textoNo]"
    unfolding textosDeFila_def f using g by simp
  have c: "textosDeFila hostUTC (mesEjemplo\<lparr>nivel := Some PlusInfinity\<rparr>)
     = Some [''2022-05'', ''Infinity'', ''Alerta'', textoSi, textoNo]"
    by code_simp
  have d: "\<not> twoDecimals ''Infinity''" "\<not> twoDecimals ''1e+21''"
    by code_simp+
  have e: "textosDeFila hostUTC (mesEjemplo\<lparr>fecha := ''</td><td>x''\<rparr>)
     = Some [[], ''x'', ''12.35'', ''Alerta'', textoSi, textoNo]"
    by code_simp
  show ?thesis using b c d e by (simp only: simp_thms)
qed

text \<open>
  C9, amended. For every entry whose level is a number and whose date and situation
  are texts with no markup in them (no less-than sign, ampersand, null character or
  carriage return), the row has five cells, in this order: the date; the level as
  \<^verbatim>\<open>toFixed(2)\<close> prints it; the situation, with the class chosen by precedence,
  drought first, then low level, else normal; and for each of the two flags \<open>textoSi\<close>
  with the class \<^verbatim>\<open>boolean-true\<close> or \<open>textoNo\<close> with the class \<^verbatim>\<open>boolean-false\<close>. The
  level has two decimals when it is finite and of magnitude below \<open>10\<^sup>2\<^sup>1\<close>, and then
  only: a finite level of magnitude \<open>10\<^sup>2\<^sup>1\<close> or more is in exponential notation, and
  one that is not finite is printed by its name. The entry of the example, with level
  12.345 and the drought flag only, has the level 12.35, the drought class, \<open>textoSi\<close> for
  drought and \<open>textoNo\<close> for low level.
\<close>

theorem month_entry_row:
  assumes "nivel m = Some x" and "plainText (fecha m)" and "plainText (situacion m)"
  shows "\<exists>html. filaDeMes h (Some m) = Inr html
     \<and> celdas html = Some
         [\<lparr>clase = None, contenido = fecha m\<rparr>,
          \<lparr>clase = None, contenido = toFixed2 h x\<rparr>,
          \<lparr>clase = Some (if es_sequia m then ''situacion-sequia''
                         else if es_nivel_bajo m then ''situacion-bajo''
                         else ''situacion-normal''),
           contenido = situacion m\<rparr>,
          \<lparr>clase = Some (if es_sequia m then ''boolean-true'' else ''boolean-false''),
           contenido = (if es_sequia m then textoSi else textoNo)\<rparr>,
          \<lparr>clase = Some (if es_nivel_bajo m then ''boolean-true'' else ''boolean-false''),
           contenido = (if es_nivel_bajo m then textoSi else textoNo)\<rparr>]
     \<and> twoDecimals (toFixed2 h x)
       = (case x of Finite r \<Rightarrow> \<bar>r\<bar> < 10 ^ 21 | PlusInfinity \<Rightarrow> False
          | MinusInfinity \<Rightarrow> False | NaN \<Rightarrow> False)
     \<and> (case x of
          Finite r \<Rightarrow> \<bar>r\<bar> < 10 ^ 21 \<or> includes_js (toFixed2 h x) ''e+''
        | PlusInfinity \<Rightarrow> toFixed2 h x = ''Infinity''
        | MinusInfinity \<Rightarrow> toFixed2 h x = ''-Infinity''
        | NaN \<Rightarrow> toFixed2 h x = ''NaN'')"
proof -
  let ?k3 = "if es_sequia m then ''situacion-sequia''
             else if es_nivel_bajo m then ''situacion-bajo'' else ''situacion-normal''"
  let ?k4 = "if es_sequia m then ''boolean-true'' else ''boolean-false''"
  let ?k5 = "if es_nivel_bajo m then ''boolean-true'' else ''boolean-false''"
  let ?s4 = "if es_sequia m then textoSi else textoNo"
  let ?s5 = "if es_nivel_bajo m then textoSi else textoNo"
  let ?html = "sangria 12 @ td (fecha m) @ sangria 12 @ td (toFixed2 h x)
               @ sangria 12 @ tdClass ?k3 (situacion m)
               @ sangria 12 @ tdClass ?k4 ?s4 @ sangria 12 @ tdClass ?k5 ?s5 @ sangria 8"
  have f: "filaDeMes h (Some m) = Inr ?html"
    using assms(1) by (simp add: filaDeMes_def Let_def)
  have "?k3 \<in> {''situacion-sequia'', ''situacion-bajo'', ''situacion-normal''}"
    and "?k4 \<in> {''boolean-true'', ''boolean-false''}"
    and "?k5 \<in> {''boolean-true'', ''boolean-false''}"
    and "?s4 \<in> {textoSi, textoNo}" and "?s5 \<in> {textoSi, textoNo}"
    by simp_all
  from celdas_fila [OF assms(2) plainText_toFixed2 assms(3) this]
  have c: "celdas ?html = Some
         [\<lparr>clase = None, contenido = fecha m\<rparr>,
          \<lparr>clase = None, contenido = toFixed2 h x\<rparr>,
          \<lparr>clase = Some ?k3, contenido = situacion m\<rparr>,
          \<lparr>clase = Some ?k4, contenido = ?s4\<rparr>,
          \<lparr>clase = Some ?k5, contenido = ?s5\<rparr>]" .
  have e: "(case x of
          Finite r \<Rightarrow> \<bar>r\<bar> < 10 ^ 21 \<or> includes_js (toFixed2 h x) ''e+''
        | PlusInfinity \<Rightarrow> toFixed2 h x = ''Infinity''
        | MinusInfinity \<Rightarrow> toFixed2 h x = ''-Infinity''
        | NaN \<Rightarrow> toFixed2 h x = ''NaN'')"
  proof (cases x)
    case (Finite r)
    show ?thesis
    proof (cases "\<bar>r\<bar> < 10 ^ 21")
      case True
      with Finite show ?thesis by simp
    next
      case False
      then have "10 ^ 21 \<le> \<bar>r\<bar>" by simp
      from toFixed2_large [OF this, of h]
        exponentialText_includes [of "if r < 0 then ''-'' else []" "shortestDecimal h \<bar>r\<bar>"]
      have "includes_js (toFixed2 h (Finite r)) ''e+''" by simp
      with Finite show ?thesis by simp
    qed
  qed (simp_all add: toFixed2_def)
  from f c twoDecimals_toFixed2_iff [of h x] e show ?thesis by blast
qed

theorem month_entry_row_witness:
  "nivel mesEjemplo = Some (Finite nivelEjemplo)
   \<and> plainText (fecha mesEjemplo) \<and> plainText (situacion mesEjemplo)
   \<and> filaDeMes hostUTC (Some mesEjemplo) = Inr filaEjemplo
   \<and> celdas filaEjemplo = Some celdasEjemplo
   \<and> toFixed2 hostUTC (Finite nivelEjemplo) = ''12.35''
   \<and> twoDecimals ''12.35''"
proof -
  have a: "nivel mesEjemplo = Some (Finite nivelEjemplo)" by (simp add: mesEjemplo_def)
  have b: "plainText (fecha mesEjemplo)" "plainText (situacion mesEjemplo)"
    by (simp_all add: mesEjemplo_def plainText_def)
  have c: "filaDeMes hostUTC (Some mesEjemplo) = Inr filaEjemplo"
    by code_simp
  have d: "toFixed2 hostUTC (Finite nivelEjemplo) = ''12.35''"
    by code_simp
  have e: "celdasEjemplo =
         [\<lparr>clase = None, contenido = fecha mesEjemplo\<rparr>,
          \<lparr>clase = None, contenido = ''12.35''\<rparr>,
          \<lparr>clase = Some ''situacion-sequia'', contenido = situacion mesEjemplo\<rparr>,
          \<lparr>clase = Some ''boolean-true'', contenido = textoSi\<rparr>,
          \<lparr>clase = Some ''boolean-false'', contenido = textoNo\<rparr>]"
    by (simp add: celdasEjemplo_def mesEjemplo_def)
  have g: "\<bar>nivelEjemplo\<bar> < 10 ^ 21" by (simp add: nivelEjemplo_def)
  have k: "es_sequia mesEjemplo" "\<not> es_nivel_bajo mesEjemplo" by (simp_all add: mesEjemplo_def)
  show ?thesis
    using month_entry_row [OF a b, of hostUTC] a b c d e g k by simp
qed

end
